theory Spec2Isabelle
  imports Main "HOL-Library.Sublist" "HOL-Library.AList"
begin

section \<open>JavaScript values of the element tree\<close>

text \<open>
  The resolver walks a tree of React elements. A value of the tree is a primitive, an
  array of children or an element \<open>{type, key, ref, props}\<close>. Numbers are modelled as
  integers (no claim depends on fractions or \<open>NaN\<close>).
\<close>

datatype error = TypeError | ReferenceError

datatype prim = Undefined | Null | Bool bool | Num int | Str string

text \<open>
  An element's \<open>type\<close> is a tag name or a component function. A function carries its own
  \<open>name\<close> property when it has one, and its source text (what \<open>String(fn)\<close> gives).
\<close>

datatype etype = Tag string | Func "string option" string

text \<open>
  The closures that the interaction handlers hand to \<open>createListener\<close>:
  \<open>() => State.setState(name, value, Component, key)\<close> and the pointer-down closure of
  \<open>active\<close>, which also pushes the key on \<open>Component._lastActiveElements\<close>.
\<close>

datatype callback = SetState string bool prim | Activate prim

datatype node =
    P prim
  | Arr "node list"
  | Elem etype prim prim props
and props =
  Props (look: "prim option") (className: "string option")
        (style: "(string \<times> node) list option") (children: node)
        (handlers: "(string \<times> callback) list") (others: "(string \<times> prim) list")

type_synonym sty = "(string \<times> node) list"

fun truthy_prim :: "prim \<Rightarrow> bool" where
  "truthy_prim Undefined = False"
| "truthy_prim Null = False"
| "truthy_prim (Bool b) = b"
| "truthy_prim (Num n) = (n \<noteq> 0)"
| "truthy_prim (Str s) = (s \<noteq> [])"

fun truthy :: "node \<Rightarrow> bool" where
  "truthy (P p) = truthy_prim p"
| "truthy (Arr xs) = True"
| "truthy (Elem t k r ps) = True"

text \<open>Reading \<open>element.key\<close> and \<open>element.ref\<close>; a value without the property gives
  \<open>undefined\<close>.\<close>

fun el_key :: "node \<Rightarrow> prim" where
  "el_key (Elem t k r ps) = k"
| "el_key (P p) = Undefined"
| "el_key (Arr xs) = Undefined"

fun el_ref :: "node \<Rightarrow> prim" where
  "el_ref (Elem t k r ps) = r"
| "el_ref (P p) = Undefined"
| "el_ref (Arr xs) = Undefined"

fun set_children :: "node \<Rightarrow> props \<Rightarrow> props" where
  "set_children c (Props l cn s ch h r) = Props l cn s c h r"

fun set_style :: "sty \<Rightarrow> props \<Rightarrow> props" where
  "set_style s (Props l cn st ch h r) = Props l cn (Some s) ch h r"

fun set_className :: "string \<Rightarrow> props \<Rightarrow> props" where
  "set_className cn (Props l c st ch h r) = Props l (Some cn) st ch h r"

fun set_handler :: "string \<Rightarrow> callback \<Rightarrow> props \<Rightarrow> props" where
  "set_handler ev cb (Props l cn st ch h r) = Props l cn st ch (AList.update ev cb h) r"

text \<open>\<open>React.createElement(type, config, children)\<close> for a tag: no key, no ref, the
  config as props, with \<open>children\<close> set from the third argument when one is passed.\<close>

definition createElement :: "string \<Rightarrow> props \<Rightarrow> node option \<Rightarrow> node" where
  "createElement tag config chs =
     Elem (Tag tag) Null Null (case chs of None \<Rightarrow> config | Some c \<Rightarrow> set_children c config)"

definition emptyProps :: props where
  "emptyProps = Props None None None (P Undefined) [] []"

section \<open>The element identity key\<close>

text \<open>\<open>let key = element.key || element.ref || 'root'\<close> (the handlers \<open>active\<close>,
  \<open>hover\<close>, \<open>focus\<close> and the resolver).\<close>

definition identityKey :: "node \<Rightarrow> prim" where
  "identityKey element =
     (if truthy_prim (el_key element) then el_key element
      else if truthy_prim (el_ref element) then el_ref element
      else Str ''root'')"

text \<open>The key as the specification words it: \<open>node.key ?? node.ref ?? "root"\<close>.\<close>

definition nullish :: "prim \<Rightarrow> bool" where
  "nullish p = (p = Undefined \<or> p = Null)"

definition specKey :: "node \<Rightarrow> prim" where
  "specKey element =
     (if \<not> nullish (el_key element) then el_key element
      else if \<not> nullish (el_ref element) then el_ref element
      else Str ''root'')"

section \<open>The interaction state store and the listener registry\<close>

text \<open>
  The owner component as the handlers use it: the state store, the registry of listeners,
  \<open>_lastActiveElements\<close> (absent until \<open>active\<close> first runs) and whether
  \<open>_onMouseUp\<close> has been installed on the window.
\<close>

record owner =
  state :: "(string \<times> prim) \<Rightarrow> bool option"
  listeners :: "(prim \<times> string) \<Rightarrow> callback option"
  lastActiveElements :: "prim list option"
  onMouseUpInstalled :: bool

text \<open>Modelled from the spec: \<open>State.getState\<close> and \<open>State.setState\<close> (api/State is
  not among the sources). \<open>getState(name, owner, key)\<close> is a boolean, false when nothing
  is stored; \<open>setState(name, value, owner, key)\<close> stores the value for \<open>(key, name)\<close> in
  the owner's own store.\<close>

definition getState :: "string \<Rightarrow> owner \<Rightarrow> prim \<Rightarrow> bool" where
  "getState name C key = (case state C (name, key) of None \<Rightarrow> False | Some b \<Rightarrow> b)"

definition setState :: "string \<Rightarrow> bool \<Rightarrow> owner \<Rightarrow> prim \<Rightarrow> owner" where
  "setState name v C key = C\<lparr>state := (state C)((name, key) \<mapsto> v)\<rparr>"

text \<open>Modelled from the spec: \<open>createListener\<close> (api/Listener is not among the
  sources). Only one handler per \<open>(owner, key, eventName)\<close> is ever attached: a repeated
  call returns the handler created first.\<close>

definition createListener ::
  "owner \<Rightarrow> node \<Rightarrow> prim \<Rightarrow> string \<Rightarrow> callback \<Rightarrow> callback \<times> owner" where
  "createListener C element key ev cb =
     (case listeners C (key, ev) of
        Some h \<Rightarrow> (h, C)
      | None \<Rightarrow> (cb, C\<lparr>listeners := (listeners C)((key, ev) \<mapsto> cb)\<rparr>))"

text \<open>Running a listener: the body of the closure it stands for.\<close>

fun fire :: "callback \<Rightarrow> owner \<Rightarrow> error + owner" where
  "fire (SetState name v key) C = Inr (setState name v C key)"
| "fire (Activate key) C =
     (let C1 = setState ''active'' True C key in
      case lastActiveElements C1 of
        None \<Rightarrow> Inl TypeError
      | Some l \<Rightarrow> Inr (C1\<lparr>lastActiveElements := Some (l @ [key])\<rparr>))"

text \<open>The body of \<open>Component._onMouseUp\<close>: \<open>pop\<close> ignores its argument and removes
  the last entry of the list.\<close>

function onMouseUp :: "owner \<Rightarrow> error + owner" where
  "onMouseUp C =
     (case lastActiveElements C of
        None \<Rightarrow> Inl TypeError
      | Some l \<Rightarrow>
          if length l > 0 then
            (let key = l ! 0;
                 C1 = setState ''active'' False C key
             in case lastActiveElements C1 of
                  None \<Rightarrow> Inl TypeError
                | Some l1 \<Rightarrow> onMouseUp (C1\<lparr>lastActiveElements := Some (butlast l1)\<rparr>))
          else Inr C)"
  by pat_completeness auto
termination
  by (relation "measure (\<lambda>C. case lastActiveElements C of None \<Rightarrow> 0 | Some l \<Rightarrow> length l)")
     (auto simp: setState_def)

text \<open>The handler \<open>active\<close>; \<open>hasWindow\<close> is \<open>typeof window !== 'undefined'\<close>. The
  result \<open>None\<close> is the handler's \<open>false\<close>.\<close>

definition active ::
  "bool \<Rightarrow> string \<Rightarrow> sty \<Rightarrow> string \<Rightarrow> node \<Rightarrow> owner \<Rightarrow> props \<Rightarrow> sty option \<times> props \<times> owner" where
  "active hasWindow property styles customKey element C newProps =
     (let key = identityKey element;
          C0 = (if lastActiveElements C = None then C\<lparr>lastActiveElements := Some []\<rparr> else C);
          (h, C1) = createListener C0 element key ''onMouseDown'' (Activate key);
          newProps1 = set_handler ''onMouseDown'' h newProps;
          C2 = (if \<not> onMouseUpInstalled C1 \<and> hasWindow
                then C1\<lparr>onMouseUpInstalled := True\<rparr> else C1)
      in (if getState ''active'' C2 key then Some styles else None, newProps1, C2))"

definition hover ::
  "string \<Rightarrow> sty \<Rightarrow> string \<Rightarrow> node \<Rightarrow> owner \<Rightarrow> props \<Rightarrow> sty option \<times> props \<times> owner" where
  "hover property styles customKey element C newProps =
     (let key = identityKey element;
          (h1, C1) = createListener C element key ''onMouseEnter'' (SetState ''hover'' True key);
          newProps1 = set_handler ''onMouseEnter'' h1 newProps;
          (h2, C2) = createListener C1 element key ''onMouseLeave'' (SetState ''hover'' False key);
          newProps2 = set_handler ''onMouseLeave'' h2 newProps1
      in (if getState ''hover'' C2 key then Some styles else None, newProps2, C2))"

definition focus ::
  "string \<Rightarrow> sty \<Rightarrow> string \<Rightarrow> node \<Rightarrow> owner \<Rightarrow> props \<Rightarrow> sty option \<times> props \<times> owner" where
  "focus property styles customKey element C newProps =
     (let key = identityKey element;
          (h1, C1) = createListener C element key ''onFocus'' (SetState ''focus'' True key);
          newProps1 = set_handler ''onFocus'' h1 newProps;
          (h2, C2) = createListener C1 element key ''onBlur'' (SetState ''focus'' False key);
          newProps2 = set_handler ''onBlur'' h2 newProps1
      in (if getState ''focus'' C2 key then Some styles else None, newProps2, C2))"


section \<open>Strings\<close>

text \<open>\<open>breakOn sep s\<close> cuts \<open>s\<close> at the first occurrence of \<open>sep\<close>;
  \<open>split_str s sep\<close> is \<open>s.split(sep)\<close> (an empty separator splits into characters) and
  \<open>join_str xs sep\<close> is \<open>xs.join(sep)\<close>.\<close>
fun breakOn :: "string \<Rightarrow> string \<Rightarrow> (string \<times> string) option" where
  "breakOn sep [] = (if sep = [] then Some ([], []) else None)"
| "breakOn sep (c # cs) =
     (if prefix sep (c # cs) then Some ([], drop (length sep) (c # cs))
      else case breakOn sep cs of None \<Rightarrow> None | Some (l, r) \<Rightarrow> Some (c # l, r))"

lemma breakOn_Some: "breakOn sep s = Some (l, r) \<Longrightarrow> s = l @ sep @ r"
proof (induction s arbitrary: l)
  case Nil
  then show ?case by (simp split: if_splits)
next
  case (Cons c cs)
  show ?case
  proof (cases "prefix sep (c # cs)")
    case True
    then obtain zs where zs: "c # cs = sep @ zs" by (auto simp: prefix_def)
    from True Cons.prems have "l = []" and "r = drop (length sep) (c # cs)" by simp_all
    then show ?thesis by (simp only: zs) simp
  next
    case False
    with Cons.prems obtain l' where "breakOn sep cs = Some (l', r)" and "l = c # l'"
      by (auto split: option.splits)
    with Cons.IH show ?thesis by simp
  qed
qed

lemma breakOn_shorter: "breakOn sep s = Some (l, r) \<Longrightarrow> sep \<noteq> [] \<Longrightarrow> length r < length s"
  by (drule breakOn_Some) (cases sep, auto)

function split_str :: "string \<Rightarrow> string \<Rightarrow> string list" where
  "split_str s sep =
     (if sep = [] then map (\<lambda>c. [c]) s
      else case breakOn sep s of None \<Rightarrow> [s] | Some (l, r) \<Rightarrow> l # split_str r sep)"
  by pat_completeness auto
termination
  by (relation "measure (\<lambda>(s, sep). length s)") (auto dest: breakOn_shorter)

fun join_str :: "string list \<Rightarrow> string \<Rightarrow> string" where
  "join_str [] sep = []"
| "join_str [x] sep = x"
| "join_str (x # y # ys) sep = x @ sep @ join_str (y # ys) sep"

declare split_str.simps [simp del]



section \<open>The substring handler\<close>


text \<open>The body of \<open>matches.forEach\<close>: \<open>chs\<close> is the variable \<open>children\<close>, which every
  round replaces by what follows the first occurrence of the match. The first piece of an
  empty split is \<open>undefined\<close>.\<close>

fun substr_forEach :: "sty \<Rightarrow> string list \<Rightarrow> string \<Rightarrow> node list \<Rightarrow> string \<times> node list" where
  "substr_forEach styles [] chs newChildren = (chs, newChildren)"
| "substr_forEach styles (m # ms) chs newChildren =
     (let parts = split_str chs m;
          left = (case parts of [] \<Rightarrow> P Undefined | l # right \<Rightarrow> P (Str l));
          right = (case parts of [] \<Rightarrow> [] | l # right \<Rightarrow> right)
      in substr_forEach styles ms (join_str right m)
           (newChildren @ [left, createElement ''span'' (set_style styles emptyProps) (Some (P (Str m)))]))"

text \<open>The handler. \<open>matchAll property content\<close> stands for
  \<open>content.match(new RegExp(getPseudoExpression(property), 'g'))\<close>: the matched strings
  from left to right, or \<open>None\<close> for \<open>null\<close>; \<open>getPseudoExpression\<close> is not among the
  sources and the regular-expression engine is JavaScript's. A number has no \<open>match\<close>
  method. The result \<open>None\<close> is the handler's \<open>false\<close>.\<close>

definition substr ::
  "(string \<Rightarrow> string \<Rightarrow> string list option) \<Rightarrow> string \<Rightarrow> sty \<Rightarrow> string \<Rightarrow> props
     \<Rightarrow> error + (sty option \<times> props)" where
  "substr matchAll property styles customKey newProps =
     (case children newProps of
        P (Str text) \<Rightarrow>
          (case matchAll property text of
             None \<Rightarrow> Inr (None, newProps)
           | Some matches \<Rightarrow>
               (let (chs, newChildren) = substr_forEach styles matches text []
                in Inr (None, set_children (Arr (newChildren @ [P (Str chs)])) newProps)))
      | P (Num n) \<Rightarrow> Inl TypeError
      | _ \<Rightarrow> Inr (None, newProps))"

section \<open>The style resolution engine\<close>

text \<open>
  A style rule of the style table is an object: an optional \<open>css\<close> class name and, in
  insertion order, its other entries, each a plain value or a nested rule (a condition).
\<close>

datatype rule = Rule (css: "string option") (entries: "(string \<times> rval) list")
and rval = Val prim | Sub rule

text \<open>
  The index maps are plain objects (\<open>{}\<close>) whose own properties are counts, modelled by
  the map of their own properties. Reading \<open>indexMap[key]\<close> gives the own count, or what
  \<open>Object.prototype\<close> holds under the key (for \<open>__proto__\<close> the prototype itself), or
  \<open>undefined\<close>.
\<close>

datatype mapval = Count nat | Inherited string | Absent

definition objectPrototypeKeys :: "string list" where
  "objectPrototypeKeys =
     [''constructor'', ''hasOwnProperty'', ''isPrototypeOf'', ''propertyIsEnumerable'',
      ''toLocaleString'', ''toString'', ''valueOf'', ''__defineGetter__'',
      ''__defineSetter__'', ''__lookupGetter__'', ''__lookupSetter__'', ''__proto__'']"

definition readMap :: "(string \<Rightarrow> nat option) \<Rightarrow> string \<Rightarrow> mapval" where
  "readMap m key =
     (case m key of
        Some n \<Rightarrow> Count n
      | None \<Rightarrow> if key \<in> set objectPrototypeKeys then Inherited key else Absent)"

text \<open>The positional metadata \<open>{index, length, typeIndex, typeIndexLength}\<close> of a
  child.\<close>

record childIndex =
  ci_index :: nat
  ci_length :: nat
  ci_typeIndex :: mapval
  ci_typeIndexLength :: mapval

text \<open>\<open>Component.styles\<close>, the style table. \<open>resolveStyle\<close> mutates the rules it
  visits (\<open>delete styles.css\<close>), so the table is the state the resolver threads.\<close>

type_synonym styleTable = "(string \<times> rule) list"

text \<open>What the resolver reads and never writes. \<open>evaluateExpression\<close> (./evaluator)
  and \<open>Validator.isPseudoElement\<close> (./validator) are not among the sources; they are
  parameters of the model. The evaluator returns the truth value of its result and the
  outgoing props, which it may extend. \<open>processors\<close> is \<open>Component.processors\<close>, each
  processor a function on styles.\<close>

record env =
  evaluateExpression :: "node \<Rightarrow> string \<Rightarrow> props \<Rightarrow> childIndex option \<Rightarrow> bool \<times> props"
  isPseudoElement :: "string \<Rightarrow> bool"
  processors :: "(sty \<Rightarrow> sty) list option"

text \<open>Modelled from the spec: \<open>assign\<close> (the package assign-styles, outside the
  repository) as the shallow per-key override the specification describes: the source's
  entries are written into the target in order, a later value replacing an earlier one.\<close>

definition assign :: "sty \<Rightarrow> sty \<Rightarrow> sty" where
  "assign target source = fold (\<lambda>(k, v) t. AList.update k v t) source target"

text \<open>\<open>s.indexOf(sub) > -1\<close>.\<close>

definition indexOf :: "string \<Rightarrow> string \<Rightarrow> bool" where
  "indexOf s sub = (breakOn sub s \<noteq> None)"

definition resolveClassName :: "string \<Rightarrow> props \<Rightarrow> props" where
  "resolveClassName c newProps =
     (case className newProps of
        None \<Rightarrow> set_className c newProps
      | Some cn \<Rightarrow> if cn = [] then set_className c newProps
                   else set_className (cn @ '' '' @ c) newProps)"

text \<open>\<open>content.split('url(')[1].substr(0, content.length - 5)\<close> as the \<open>src\<close> of an
  \<open>img\<close> element.\<close>

definition createPseudoImage :: "string \<Rightarrow> error + node" where
  "createPseudoImage content =
     (case split_str content ''url('' of
        a # b # cs \<Rightarrow>
          Inr (createElement ''img''
                 (Props None None None (P Undefined) []
                    [(''src'', Str (take (nat (int (length content) - 5)) b))]) None)
      | _ \<Rightarrow> Inl TypeError)"

text \<open>\<open>addPseudoElement\<close>: a truthy \<open>content\<close> is taken out of the styles and
  becomes the children of the \<open>span\<close>. \<open>content.indexOf\<close> exists on strings and arrays
  only; \<open>split\<close> on strings only.\<close>

definition addPseudoElement :: "sty \<Rightarrow> error + node" where
  "addPseudoElement stys =
     (let content = (case map_of stys ''content'' of
                       None \<Rightarrow> P (Str [])
                     | Some v \<Rightarrow> if truthy v then v else P (Str []));
          stys1 = (case map_of stys ''content'' of
                     None \<Rightarrow> stys
                   | Some v \<Rightarrow> if truthy v then AList.delete ''content'' stys else stys)
      in case content of
           P (Str s) \<Rightarrow>
             (if indexOf s ''url(''
              then (case createPseudoImage s of
                      Inl e \<Rightarrow> Inl e
                    | Inr img \<Rightarrow> Inr (createElement ''span'' (set_style stys1 emptyProps) (Some (Arr [img]))))
              else Inr (createElement ''span'' (set_style stys1 emptyProps) (Some (P (Str s)))))
         | Arr xs \<Rightarrow>
             (if P (Str ''url('') \<in> set xs then Inl TypeError
              else Inr (createElement ''span'' (set_style stys1 emptyProps) (Some (Arr xs))))
         | _ \<Rightarrow> Inl TypeError)"


text \<open>\<open>getChildType\<close>, given as the property key under which the type is counted in
  \<open>indexMap[childType]\<close>: a tag name, a component's name (its source text when it has no
  own name), and \<open>undefined\<close> for a value without a \<open>type\<close>. Reading \<open>child.type\<close> of
  \<open>undefined\<close> or \<open>null\<close> raises.\<close>

fun getChildType :: "node \<Rightarrow> error + string" where
  "getChildType (P Undefined) = Inl TypeError"
| "getChildType (P Null) = Inl TypeError"
| "getChildType (P p) = Inr ''undefined''"
| "getChildType (Arr xs) = Inr ''undefined''"
| "getChildType (Elem (Tag s) k r ps) = Inr s"
| "getChildType (Elem (Func (Some n) src) k r ps) = Inr n"
| "getChildType (Elem (Func None src) k r ps) = Inr src"

text \<open>
  \<open>generateIndexMap\<close>. \<open>indexMap.hasOwnProperty(childType)\<close> is a call of whatever the
  map holds under \<open>hasOwnProperty\<close>: once a child of that kind has been counted, the map's
  own count shadows the method and the call raises. For the key \<open>__proto__\<close> the test is
  false and the assignment \<open>indexMap['__proto__'] = 1\<close> is ignored (the prototype setter
  takes objects only), so no count is ever stored.
\<close>

definition generateIndexMap ::
  "node \<Rightarrow> (string \<Rightarrow> nat option) \<Rightarrow> error + (string \<Rightarrow> nat option)" where
  "generateIndexMap child indexMap =
     (case getChildType child of
        Inl e \<Rightarrow> Inl e
      | Inr childType \<Rightarrow>
          if indexMap ''hasOwnProperty'' \<noteq> None then Inl TypeError
          else if childType = ''__proto__'' then Inr indexMap
          else (case indexMap childType of
                  Some n \<Rightarrow> Inr (indexMap(childType \<mapsto> n + 1))
                | None \<Rightarrow> Inr (indexMap(childType \<mapsto> 1))))"

fun generateTypeMap_forEach ::
  "node list \<Rightarrow> (string \<Rightarrow> nat option) \<Rightarrow> error + (string \<Rightarrow> nat option)" where
  "generateTypeMap_forEach [] indexMap = Inr indexMap"
| "generateTypeMap_forEach (child # cs) indexMap =
     (case generateIndexMap child indexMap of
        Inl e \<Rightarrow> Inl e
      | Inr indexMap1 \<Rightarrow> generateTypeMap_forEach cs indexMap1)"

definition generateTypeMap :: "node list \<Rightarrow> error + (string \<Rightarrow> nat option)" where
  "generateTypeMap cs = generateTypeMap_forEach cs Map.empty"

text \<open>The body of \<open>oldChildren.forEach\<close> in \<open>resolveLook\<close>. The recursive
  resolution is the parameter \<open>resolve\<close>; \<open>C\<close> is the state it threads. The warning for an
  \<open>undefined\<close> child reads the undeclared name \<open>oldChidren\<close>, which raises.\<close>

fun forEachChild ::
  "(node \<Rightarrow> childIndex \<Rightarrow> 'c \<Rightarrow> error + node \<times> 'c) \<Rightarrow> (string \<Rightarrow> nat option) \<Rightarrow> nat \<Rightarrow>
   node list \<Rightarrow> nat \<Rightarrow> (string \<Rightarrow> nat option) \<Rightarrow> node list \<Rightarrow> 'c \<Rightarrow> error + node list \<times> 'c" where
  "forEachChild resolve typeMap len [] index indexMap newChildren C = Inr (newChildren, C)"
| "forEachChild resolve typeMap len (child # cs) index indexMap newChildren C =
     (if truthy child then
        (case generateIndexMap child indexMap of
           Inl e \<Rightarrow> Inl e
         | Inr indexMap1 \<Rightarrow>
             (case getChildType child of
                Inl e \<Rightarrow> Inl e
              | Inr childType \<Rightarrow>
                  (case resolve child
                          \<lparr>ci_index = index + 1, ci_length = len,
                           ci_typeIndex = readMap indexMap1 childType,
                           ci_typeIndexLength = readMap typeMap childType\<rparr> C of
                     Inl e \<Rightarrow> Inl e
                   | Inr (resolved, C1) \<Rightarrow>
                       forEachChild resolve typeMap len cs (index + 1) indexMap1
                         (newChildren @ [resolved]) C1)))
      else if child = P Undefined then Inl ReferenceError
      else forEachChild resolve typeMap len cs (index + 1) indexMap (newChildren @ [child]) C)"

lemma forEachChild_cong [fundef_cong]:
  "cs = cs' \<Longrightarrow> (\<And>child ci D. child \<in> set cs' \<Longrightarrow> f child ci D = g child ci D) \<Longrightarrow>
   forEachChild f typeMap len cs index indexMap acc C
     = forEachChild g typeMap len cs' index indexMap acc C"
proof (induction cs arbitrary: cs' index indexMap acc C)
  case Nil
  then show ?case by simp
next
  case (Cons child cs)
  have step: "\<And>i m a D. forEachChild f typeMap len cs i m a D = forEachChild g typeMap len cs i m a D"
    using Cons.prems by (intro Cons.IH) auto
  have here: "\<And>ci D. f child ci D = g child ci D" using Cons.prems by auto
  from Cons.prems(1) have cs': "cs' = child # cs" by simp
  show ?case unfolding cs' by (auto simp: step here split: sum.splits)
qed

text \<open>\<open>_Validator.isEmpty\<close> on an object: it has no keys.\<close>

fun isEmpty :: "rule \<Rightarrow> bool" where
  "isEmpty (Rule c es) = (c = None \<and> es = [])"

text \<open>\<open>resolveStyle\<close>, with \<open>each_entry\<close> for the body of \<open>_Object.each\<close>. The
  third component of the result is the rule as the call leaves it (\<open>css\<close> deleted).
  \<open>styles.hasOwnProperty('css')\<close> is a call of the rule's own entry \<open>hasOwnProperty\<close>
  when it has one, a value or a rule and no function: the call raises.\<close>

function resolveStyle ::
  "env \<Rightarrow> node \<Rightarrow> rule \<Rightarrow> props \<Rightarrow> node \<Rightarrow> childIndex option \<Rightarrow> error + sty \<times> props \<times> rule"
and each_entry ::
  "env \<Rightarrow> node \<Rightarrow> (string \<times> rval) list \<Rightarrow> sty \<Rightarrow> props \<Rightarrow> node \<Rightarrow> childIndex option
     \<Rightarrow> error + sty \<times> props \<times> (string \<times> rval) list"
where
  "resolveStyle E element (Rule c es) newProps newChildren childIndexMap =
     (if map_of es ''hasOwnProperty'' \<noteq> None then Inl TypeError
      else
        (let newProps1 = (case c of None \<Rightarrow> newProps | Some cn \<Rightarrow> resolveClassName cn newProps)
         in case each_entry E element es [] newProps1 newChildren childIndexMap of
              Inl e \<Rightarrow> Inl e
            | Inr (newStyle, newProps2, es') \<Rightarrow> Inr (newStyle, newProps2, Rule None es')))"
| "each_entry E element [] newStyle newProps newChildren childIndexMap = Inr (newStyle, newProps, [])"
| "each_entry E element ((property, Val v) # es) newStyle newProps newChildren childIndexMap =
     (case each_entry E element es (AList.update property (P v) newStyle) newProps newChildren
             childIndexMap of
        Inl e \<Rightarrow> Inl e
      | Inr (s, p, es') \<Rightarrow> Inr (s, p, (property, Val v) # es'))"
| "each_entry E element ((property, Sub r) # es) newStyle newProps newChildren childIndexMap =
     (if isEmpty r then
        (case each_entry E element es newStyle newProps newChildren childIndexMap of
           Inl e \<Rightarrow> Inl e
         | Inr (s, p, es') \<Rightarrow> Inr (s, p, (property, Sub r) # es'))
      else
        (case evaluateExpression E element property newProps childIndexMap of
           (False, newProps1) \<Rightarrow>
             (case each_entry E element es newStyle newProps1 newChildren childIndexMap of
                Inl e \<Rightarrow> Inl e
              | Inr (s, p, es') \<Rightarrow> Inr (s, p, (property, Sub r) # es'))
         | (True, newProps1) \<Rightarrow>
             (case resolveStyle E element r newProps1 newChildren childIndexMap of
                Inl e \<Rightarrow> Inl e
              | Inr (resolved, newProps2, r') \<Rightarrow>
                  (if isPseudoElement E property then
                     (case addPseudoElement resolved of
                        Inl e \<Rightarrow> Inl e
                      | Inr pseudo \<Rightarrow>
                          (case each_entry E element es
                                  (AList.update
                                     (if indexOf property ''before'' then ''before'' else ''after'')
                                     pseudo newStyle)
                                  newProps2 newChildren childIndexMap of
                             Inl e \<Rightarrow> Inl e
                           | Inr (s, p, es') \<Rightarrow> Inr (s, p, (property, Sub r') # es')))
                   else
                     (case each_entry E element es (assign newStyle resolved) newProps2 newChildren
                             childIndexMap of
                        Inl e \<Rightarrow> Inl e
                      | Inr (s, p, es') \<Rightarrow> Inr (s, p, (property, Sub r') # es'))))))"
  by pat_completeness auto
termination
  by (relation "measure (\<lambda>x. case x of
          Inl (E, element, r, ps) \<Rightarrow> size r
        | Inr (E, element, es, ps) \<Rightarrow> size_list (size_prod (\<lambda>_. 0) size) es)") auto


text \<open>\<open>(props.look === true ? '_default' : props.look).split(' ')\<close>.\<close>

definition lookNames :: "prim \<Rightarrow> error + string list" where
  "lookNames l =
     (case l of
        Bool True \<Rightarrow> Inr (split_str ''_default'' '' '')
      | Str s \<Rightarrow> Inr (split_str s '' '')
      | _ \<Rightarrow> Inl TypeError)"

text \<open>The body of \<open>looks.forEach\<close>. \<open>Component.styles.hasOwnProperty(look)\<close> raises
  when the table has a look of the name \<open>hasOwnProperty\<close>, which shadows the method.\<close>

fun forEachLook ::
  "env \<Rightarrow> node \<Rightarrow> string list \<Rightarrow> sty \<Rightarrow> props \<Rightarrow> styleTable \<Rightarrow> node \<Rightarrow> childIndex option
     \<Rightarrow> error + sty \<times> props \<times> styleTable" where
  "forEachLook E element [] newStyles newProps C newChildren childIndexMap =
     Inr (newStyles, newProps, C)"
| "forEachLook E element (lk # lks) newStyles newProps C newChildren childIndexMap =
     (if map_of C ''hasOwnProperty'' \<noteq> None then Inl TypeError
      else
        (case map_of C lk of
           None \<Rightarrow> forEachLook E element lks newStyles newProps C newChildren childIndexMap
         | Some r \<Rightarrow>
             (case resolveStyle E element r newProps newChildren childIndexMap of
                Inl e \<Rightarrow> Inl e
              | Inr (resolved, newProps1, r') \<Rightarrow>
                  forEachLook E element lks (assign newStyles resolved) newProps1
                    (AList.update lk r' C)
                    newChildren childIndexMap)))"

text \<open>Modelled from the spec: the \<open>Sheet\<close> of dynamic-style-sheets (outside the
  repository) as a container: \<open>new Sheet(newStyles)\<close>, the processors run in order when
  the component has any, and \<open>getSelectors()\<close> hands the styles back.\<close>

definition sheetSelectors :: "(sty \<Rightarrow> sty) list option \<Rightarrow> sty \<Rightarrow> sty" where
  "sheetSelectors procs newStyles =
     (case procs of None \<Rightarrow> newStyles | Some ps \<Rightarrow> fold (\<lambda>p s. p s) ps newStyles)"

text \<open>Reading a property of a style object.\<close>

definition get :: "sty \<Rightarrow> string \<Rightarrow> node" where
  "get stys k = (case map_of stys k of None \<Rightarrow> P Undefined | Some v \<Rightarrow> v)"

text \<open>The block \<open>resolving :before & :after pseudo elements\<close> of \<open>resolveLook\<close>.\<close>

definition pseudoElements :: "sty \<Rightarrow> node \<Rightarrow> sty \<times> node" where
  "pseudoElements stys newChildren =
     (if truthy (get stys ''before'') \<or> truthy (get stys ''after'') then
        (let cs = (case newChildren of Arr xs \<Rightarrow> xs | _ \<Rightarrow> [newChildren])
         in if truthy (get stys ''before'')
            then (AList.delete ''before'' stys, Arr (get stys ''before'' # cs))
            else if truthy (get stys ''after'')
            then (AList.delete ''after'' stys, Arr (cs @ [get stys ''after'']))
            else (stys, Arr cs))
      else (stys, newChildren))"

definition cloneElement :: "etype \<Rightarrow> prim \<Rightarrow> prim \<Rightarrow> props \<Rightarrow> node \<Rightarrow> node" where
  "cloneElement t k r newProps newChildren = Elem t k r (set_children newChildren newProps)"

text \<open>The second half of \<open>resolveLook\<close>, from \<open>let newProps = _Object.assign({}, props)\<close>
  to \<open>React.cloneElement(element, newProps, newChildren)\<close>. \<open>props.hasOwnProperty('look')\<close>
  raises when the element has a prop of the name \<open>hasOwnProperty\<close>.\<close>

definition finishLook ::
  "env \<Rightarrow> styleTable \<Rightarrow> etype \<Rightarrow> prim \<Rightarrow> prim \<Rightarrow> props \<Rightarrow> node \<Rightarrow> childIndex option
     \<Rightarrow> error + node \<times> styleTable" where
  "finishLook E C t k r ps newChildren childIndexMap =
     (case (if map_of (others ps) ''hasOwnProperty'' \<noteq> None then Inl TypeError
            else
              (case look ps of
                 None \<Rightarrow> Inr ([], ps, C)
               | Some l \<Rightarrow>
                   (case lookNames l of
                      Inl e \<Rightarrow> Inl e
                    | Inr looks \<Rightarrow>
                        forEachLook E (Elem t k r ps) looks [] ps C newChildren childIndexMap))) of
        Inl e \<Rightarrow> Inl e
      | Inr (newStyles, newProps, C1) \<Rightarrow>
          (let newStyles1 = (case style ps of None \<Rightarrow> newStyles | Some st \<Rightarrow> assign newStyles st);
               stys = sheetSelectors (processors E) newStyles1;
               (stys1, newChildren1) = pseudoElements stys newChildren
           in Inr (cloneElement t k r (set_style stys1 newProps) newChildren1, C1)))"

lemma size_child: "child \<in> set cs \<Longrightarrow> size (child::node) \<le> size_list size cs"
  by (induction cs) auto

function resolveLook ::
  "env \<Rightarrow> styleTable \<Rightarrow> node \<Rightarrow> childIndex option \<Rightarrow> error + node \<times> styleTable" where
  "resolveLook E C (P p) childIndexMap = Inr (P p, C)"
| "resolveLook E C (Arr xs) childIndexMap = Inr (Arr xs, C)"
| "resolveLook E C (Elem t k r (Props lk cn st oldChildren h ot)) childIndexMap =
     (case (if truthy oldChildren then
              (case oldChildren of
                 Arr cs \<Rightarrow>
                   (case generateTypeMap cs of
                      Inl e \<Rightarrow> Inl e
                    | Inr typeMap \<Rightarrow>
                        (case forEachChild
                                (\<lambda>child childIndex D. resolveLook E D child (Some childIndex))
                                typeMap (length cs) cs 0 Map.empty [] C of
                           Inl e \<Rightarrow> Inl e
                         | Inr (newChildren, C1) \<Rightarrow> Inr (Arr newChildren, C1)))
               | _ \<Rightarrow> resolveLook E C oldChildren None)
            else Inr (Arr [], C)) of
        Inl e \<Rightarrow> Inl e
      | Inr (newChildren, C1) \<Rightarrow>
          finishLook E C1 t k r (Props lk cn st oldChildren h ot) newChildren childIndexMap)"
  by pat_completeness auto
termination
  by (relation "measure (\<lambda>(E, C, n, ci). size n)") (auto dest!: size_child)

section \<open>Properties of the interaction handlers\<close>

text \<open>An owner on which \<open>active\<close> has run and no element is pressed.\<close>

definition freshOwner :: owner where
  "freshOwner = \<lparr>state = Map.empty, listeners = Map.empty, lastActiveElements = Some [],
                  onMouseUpInstalled = True\<rparr>"

text \<open>
  C3 (the release sweep). Pressing \<open>'a'\<close> and then \<open>'b'\<close> records both keys and sets
  both \<open>active\<close>. The release handler reads the first key of the list on every round
  but removes the last one (\<open>pop\<close>): it clears \<open>'a'\<close> twice, empties the list, and
  leaves \<open>'b'\<close> active.
\<close>

theorem onMouseUp_leaves_second_key_active:
  "(case fire (Activate (Str ''a'')) freshOwner of
      Inl e \<Rightarrow> False
    | Inr C1 \<Rightarrow>
        (case fire (Activate (Str ''b'')) C1 of
           Inl e \<Rightarrow> False
         | Inr C2 \<Rightarrow>
             lastActiveElements C2 = Some [Str ''a'', Str ''b'']
             \<and> getState ''active'' C2 (Str ''a'') \<and> getState ''active'' C2 (Str ''b'')
             \<and> (case onMouseUp C2 of
                    Inl e \<Rightarrow> False
                  | Inr C3 \<Rightarrow>
                      getState ''active'' C3 (Str ''a'') = False
                      \<and> getState ''active'' C3 (Str ''b'') = True
                      \<and> lastActiveElements C3 = Some [])))"
  by (simp add: freshOwner_def setState_def getState_def)

text \<open>
  C7, as stated, fails: an empty-string key is defined, yet the identity key is the ref
  (and \<open>'root'\<close> for the key \<open>0\<close> without a ref), where \<open>key ?? ref ?? "root"\<close> gives the
  key itself.
\<close>

theorem identityKey_empty_key_counterexample:
  "el_key (Elem (Tag ''div'') (Str []) (Str ''r'') emptyProps) = Str []
   \<and> \<not> nullish (Str [])
   \<and> identityKey (Elem (Tag ''div'') (Str []) (Str ''r'') emptyProps) = Str ''r''
   \<and> identityKey (Elem (Tag ''div'') (Num 0) Null emptyProps) = Str ''root''
   \<and> specKey (Elem (Tag ''div'') (Str []) (Str ''r'') emptyProps) = Str []"
  by (simp add: identityKey_def specKey_def nullish_def)

text \<open>
  C7 (amended). The identity key is the key when the key is truthy, otherwise the ref when
  the ref is truthy, otherwise \<open>'root'\<close>; it is always truthy, and it is
  \<open>key ?? ref ?? "root"\<close> whenever neither key nor ref is a defined falsy value.
\<close>

theorem identityKey_truthy_chain:
  "identityKey e = (if truthy_prim (el_key e) then el_key e
                    else if truthy_prim (el_ref e) then el_ref e else Str ''root'')
   \<and> truthy_prim (identityKey e)
   \<and> ((nullish (el_key e) \<or> truthy_prim (el_key e)) \<and> (nullish (el_ref e) \<or> truthy_prim (el_ref e))
        \<longrightarrow> identityKey e = specKey e)"
  by (auto simp: identityKey_def specKey_def nullish_def)

theorem identityKey_truthy_chain_witness:
  "(nullish (el_key (Elem (Tag ''div'') Null (Str ''r'') emptyProps))
      \<or> truthy_prim (el_key (Elem (Tag ''div'') Null (Str ''r'') emptyProps)))
   \<and> (nullish (el_ref (Elem (Tag ''div'') Null (Str ''r'') emptyProps))
      \<or> truthy_prim (el_ref (Elem (Tag ''div'') Null (Str ''r'') emptyProps)))
   \<and> identityKey (Elem (Tag ''div'') Null (Str ''r'') emptyProps) = Str ''r''
   \<and> specKey (Elem (Tag ''div'') Null (Str ''r'') emptyProps) = Str ''r''"
  using identityKey_truthy_chain [of "Elem (Tag ''div'') Null (Str ''r'') emptyProps"]
  by (simp add: nullish_def specKey_def)

text \<open>
  C6. Whatever the stored state, evaluating \<open>hover\<close> puts a pointer-enter and a
  pointer-leave listener into the outgoing props; fired, the first sets and the second
  clears the stored \<open>hover\<close> state of the element's key; and the handler returns the
  style fragment exactly when the stored \<open>hover\<close> state of the key is true. The registry
  is assumed to hold, for this key and these two events, either nothing or the listeners
  \<open>hover\<close> itself creates.
\<close>

theorem hover_registers_listeners_and_reads_state:
  assumes "listeners C (identityKey element, ''onMouseEnter'')
             \<in> {None, Some (SetState ''hover'' True (identityKey element))}"
      and "listeners C (identityKey element, ''onMouseLeave'')
             \<in> {None, Some (SetState ''hover'' False (identityKey element))}"
  shows "case hover property styles customKey element C newProps of
           (res, newProps', C') \<Rightarrow>
             (\<exists>h1 h2. map_of (handlers newProps') ''onMouseEnter'' = Some h1
                \<and> map_of (handlers newProps') ''onMouseLeave'' = Some h2
                \<and> (\<forall>D. case fire h1 D of Inl e \<Rightarrow> False
                         | Inr D' \<Rightarrow> getState ''hover'' D' (identityKey element))
                \<and> (\<forall>D. case fire h2 D of Inl e \<Rightarrow> False
                         | Inr D' \<Rightarrow> \<not> getState ''hover'' D' (identityKey element)))
             \<and> (res = Some styles \<longleftrightarrow> getState ''hover'' C (identityKey element))
             \<and> (res = None \<longleftrightarrow> \<not> getState ''hover'' C (identityKey element))"
  using assms
  by (cases newProps)
     (auto simp: hover_def createListener_def Let_def getState_def setState_def update_conv'
           split: option.splits)

text \<open>An owner before any handler has run.\<close>

definition idleOwner :: owner where
  "idleOwner = \<lparr>state = Map.empty, listeners = Map.empty, lastActiveElements = None,
                 onMouseUpInstalled = False\<rparr>"

theorem hover_registers_listeners_and_reads_state_witness:
  "listeners idleOwner (identityKey (Elem (Tag ''div'') (Str ''k'') Null emptyProps), ''onMouseEnter'') = None
   \<and> listeners idleOwner (identityKey (Elem (Tag ''div'') (Str ''k'') Null emptyProps), ''onMouseLeave'') = None
   \<and> getState ''hover'' idleOwner (Str ''k'') = False
   \<and> fst (hover '':hover'' [(''color'', P (Str ''red''))] ''k''
             (Elem (Tag ''div'') (Str ''k'') Null emptyProps) idleOwner emptyProps) = None
   \<and> handlers (fst (snd (hover '':hover'' [(''color'', P (Str ''red''))] ''k''
             (Elem (Tag ''div'') (Str ''k'') Null emptyProps) idleOwner emptyProps)))
       = [(''onMouseEnter'', SetState ''hover'' True (Str ''k'')),
          (''onMouseLeave'', SetState ''hover'' False (Str ''k''))]"
  using hover_registers_listeners_and_reads_state
          [where C = idleOwner and element = "Elem (Tag ''div'') (Str ''k'') Null emptyProps"
             and property = "'':hover''" and styles = "[(''color'', P (Str ''red''))]"
             and customKey = "''k''" and newProps = emptyProps]
  by (simp add: idleOwner_def identityKey_def hover_def createListener_def emptyProps_def Let_def
                getState_def)

section \<open>Properties of the substring handler\<close>



















text \<open>
  C9 (a numeric children value). A number passes the handler's \<open>typeof\<close> test, and
  \<open>children.match\<close> is then called on it: a number has no \<open>match\<close>, so the handler
  raises a \<open>TypeError\<close>.
\<close>

theorem substr_number_raises:
  "substr matchAll property styles customKey (set_children (P (Num n)) newProps) = Inl TypeError"
  by (cases newProps) (simp add: substr_def)

section \<open>Positional metadata of the children\<close>

text \<open>
  The record that the loop of \<open>resolveLook\<close> computes for the child that stands after the
  siblings \<open>pre\<close> in an array of \<open>len\<close> children, in closed form: \<open>index\<close> is the
  1-based position, \<open>length\<close> the number of siblings, \<open>typeIndex\<close> what the running
  index map holds for the child's kind once the truthy siblings up to and including the child
  are counted, and \<open>typeIndexLength\<close> what the type map of the pre-pass holds for it.
  \<open>kindOf\<close> is the key that \<open>getChildType\<close> gives, \<open>bump\<close> the update that
  \<open>generateIndexMap\<close> makes. The lemma \<open>forEachChild_eachSibling\<close> shows that the loop
  of the source computes these records.
\<close>

definition kindOf :: "node \<Rightarrow> string" where
  "kindOf c = (case getChildType c of Inl e \<Rightarrow> [] | Inr k \<Rightarrow> k)"

definition bump :: "string \<Rightarrow> (string \<Rightarrow> nat option) \<Rightarrow> (string \<Rightarrow> nat option)" where
  "bump k m =
     (if k = ''__proto__'' then m
      else m(k \<mapsto> (case m k of None \<Rightarrow> 1 | Some n \<Rightarrow> n + 1)))"

definition countTruthy :: "node list \<Rightarrow> (string \<Rightarrow> nat option)" where
  "countTruthy xs = fold (\<lambda>c m. if truthy c then bump (kindOf c) m else m) xs Map.empty"

definition metadata :: "(string \<Rightarrow> nat option) \<Rightarrow> nat \<Rightarrow> node list \<Rightarrow> node \<Rightarrow> childIndex" where
  "metadata typeMap len pre child =
     \<lparr>ci_index = length pre + 1, ci_length = len,
      ci_typeIndex = readMap (countTruthy (pre @ [child])) (kindOf child),
      ci_typeIndexLength = readMap typeMap (kindOf child)\<rparr>"

text \<open>
  The loop over the children, told by position: \<open>eachSibling step pre cs\<close> applies
  \<open>step\<close> to every child of \<open>cs\<close> in order, handing it the siblings before the child, and
  collects the results. \<open>resolveSibling\<close> is the step of \<open>resolveLook\<close>: a truthy child
  is resolved with its metadata, an \<open>undefined\<close> child raises, any other child is kept.
\<close>

fun eachSibling ::
  "(node list \<Rightarrow> node \<Rightarrow> 'c \<Rightarrow> error + node \<times> 'c) \<Rightarrow> node list \<Rightarrow> node list \<Rightarrow> node list \<Rightarrow> 'c
     \<Rightarrow> error + node list \<times> 'c" where
  "eachSibling step pre [] acc C = Inr (acc, C)"
| "eachSibling step pre (c # cs) acc C =
     (case step pre c C of
        Inl e \<Rightarrow> Inl e
      | Inr (resolved, C1) \<Rightarrow> eachSibling step (pre @ [c]) cs (acc @ [resolved]) C1)"

definition resolveSibling ::
  "(node \<Rightarrow> childIndex \<Rightarrow> 'c \<Rightarrow> error + node \<times> 'c) \<Rightarrow> (string \<Rightarrow> nat option) \<Rightarrow> nat \<Rightarrow>
   node list \<Rightarrow> node \<Rightarrow> 'c \<Rightarrow> error + node \<times> 'c" where
  "resolveSibling resolve typeMap len pre child C =
     (if truthy child then resolve child (metadata typeMap len pre child) C
      else if child = P Undefined then Inl ReferenceError
      else Inr (child, C))"

definition nullishNode :: "node \<Rightarrow> bool" where
  "nullishNode c = (c = P Undefined \<or> c = P Null)"

lemma getChildType_kindOf: "\<not> nullishNode c \<Longrightarrow> getChildType c = Inr (kindOf c)"
  by (cases c rule: getChildType.cases) (auto simp: nullishNode_def kindOf_def)

lemma getChildType_nullish: "nullishNode c \<Longrightarrow> getChildType c = Inl TypeError"
  by (auto simp: nullishNode_def)

lemma truthy_not_nullish: "truthy c \<Longrightarrow> \<not> nullishNode c"
  by (auto simp: nullishNode_def)

lemma generateIndexMap_error: "generateIndexMap c m = Inl e \<Longrightarrow> e = TypeError"
  by (cases "nullishNode c")
     (auto simp: generateIndexMap_def getChildType_nullish getChildType_kindOf
           split: if_splits option.splits)

lemma generateIndexMap_nullish: "nullishNode c \<Longrightarrow> generateIndexMap c m = Inl TypeError"
  by (simp add: generateIndexMap_def getChildType_nullish)

lemma generateIndexMap_Inr:
  "generateIndexMap c m = Inr m' \<longleftrightarrow>
     \<not> nullishNode c \<and> m ''hasOwnProperty'' = None \<and> m' = bump (kindOf c) m"
  by (cases "nullishNode c")
     (auto simp: generateIndexMap_def getChildType_nullish getChildType_kindOf bump_def
           split: option.splits)

lemma generateTypeMap_forEach_nullish:
  "generateTypeMap_forEach (xs @ c # ys) m = Inl TypeError" if "nullishNode c"
proof (induction xs arbitrary: m)
  case Nil
  show ?case by (simp add: generateIndexMap_nullish [OF that])
next
  case (Cons x xs)
  show ?case
  proof (cases "generateIndexMap x m")
    case (Inl e)
    then show ?thesis by (simp add: generateIndexMap_error)
  next
    case (Inr m')
    then show ?thesis by (simp add: Cons.IH)
  qed
qed

lemma dom_bump: "dom m \<subseteq> dom m' \<Longrightarrow> dom (bump k m) \<subseteq> dom (bump k m')"
  by (auto simp: bump_def)

lemma dom_bump_grows: "dom m \<subseteq> dom m' \<Longrightarrow> dom m \<subseteq> dom (bump k m')"
  by (auto simp: bump_def)

lemma countTruthy_snoc:
  "countTruthy (pre @ [c]) = (if truthy c then bump (kindOf c) (countTruthy pre) else countTruthy pre)"
  by (simp add: countTruthy_def)

lemma forEachChild_eachSibling:
  "generateTypeMap_forEach cs m0 = Inr m' \<Longrightarrow> dom (countTruthy pre) \<subseteq> dom m0 \<Longrightarrow>
   forEachChild resolve typeMap len cs (length pre) (countTruthy pre) acc C
     = eachSibling (resolveSibling resolve typeMap len) pre cs acc C"
proof (induction cs arbitrary: m0 pre acc C)
  case Nil
  then show ?case by simp
next
  case (Cons c cs)
  from Cons.prems(1) obtain m1 where g: "generateIndexMap c m0 = Inr m1"
    and more: "generateTypeMap_forEach cs m1 = Inr m'"
    by (auto split: sum.splits)
  from g have nn: "\<not> nullishNode c" and own: "m0 ''hasOwnProperty'' = None"
    and m1: "m1 = bump (kindOf c) m0" by (simp_all add: generateIndexMap_Inr)
  from own Cons.prems(2) have own': "countTruthy pre ''hasOwnProperty'' = None" by auto
  show ?case
  proof (cases "truthy c")
    case True
    have gi: "generateIndexMap c (countTruthy pre) = Inr (countTruthy (pre @ [c]))"
      using nn own' True by (simp add: generateIndexMap_Inr countTruthy_snoc)
    have sub: "dom (countTruthy (pre @ [c])) \<subseteq> dom m1"
      using Cons.prems(2) True by (simp add: countTruthy_snoc m1 dom_bump)
    have IH: "\<And>acc C. forEachChild resolve typeMap len cs (length (pre @ [c]))
                 (countTruthy (pre @ [c])) acc C
               = eachSibling (resolveSibling resolve typeMap len) (pre @ [c]) cs acc C"
      by (rule Cons.IH [OF more sub])
    have head: "\<And>D. resolveSibling resolve typeMap len pre c D
        = resolve c \<lparr>ci_index = length pre + 1, ci_length = len,
                      ci_typeIndex = readMap (countTruthy (pre @ [c])) (kindOf c),
                      ci_typeIndexLength = readMap typeMap (kindOf c)\<rparr> D"
      using True by (simp add: resolveSibling_def metadata_def)
    show ?thesis
      using True IH
      by (simp add: gi getChildType_kindOf [OF nn] head split: sum.splits)
  next
    case False
    from nn have nu: "c \<noteq> P Undefined" by (auto simp: nullishNode_def)
    have same: "countTruthy (pre @ [c]) = countTruthy pre"
      using False by (simp add: countTruthy_snoc)
    have sub: "dom (countTruthy (pre @ [c])) \<subseteq> dom m1"
      using Cons.prems(2) by (simp add: same m1 dom_bump_grows)
    have IH: "\<And>acc C. forEachChild resolve typeMap len cs (length (pre @ [c]))
                 (countTruthy (pre @ [c])) acc C
               = eachSibling (resolveSibling resolve typeMap len) (pre @ [c]) cs acc C"
      by (rule Cons.IH [OF more sub])
    have head: "\<And>D. resolveSibling resolve typeMap len pre c D = Inr (c, D)"
      using False nu by (simp add: resolveSibling_def)
    show ?thesis
      using False nu IH by (simp add: same head)
  qed
qed

text \<open>The array branch of \<open>resolveLook\<close>: the pre-pass, then every sibling in turn, then
  the second half.\<close>

lemma resolveLook_children_array:
  "resolveLook E C (Elem t k r (Props lk cn st (Arr cs) h ot)) childIndexMap =
     (case generateTypeMap cs of
        Inl e \<Rightarrow> Inl e
      | Inr typeMap \<Rightarrow>
          (case eachSibling
                  (resolveSibling (\<lambda>child childIndex D. resolveLook E D child (Some childIndex))
                     typeMap (length cs))
                  [] cs [] C of
             Inl e \<Rightarrow> Inl e
           | Inr (newChildren, C1) \<Rightarrow>
               finishLook E C1 t k r (Props lk cn st (Arr cs) h ot) (Arr newChildren)
                 childIndexMap))"
proof (cases "generateTypeMap cs")
  case (Inl e)
  then show ?thesis by simp
next
  case (Inr typeMap)
  then have pre: "generateTypeMap_forEach cs Map.empty = Inr typeMap"
    by (simp add: generateTypeMap_def)
  have "forEachChild (\<lambda>child childIndex D. resolveLook E D child (Some childIndex))
          typeMap (length cs) cs (length ([]::node list)) (countTruthy []) [] C
      = eachSibling
          (resolveSibling (\<lambda>child childIndex D. resolveLook E D child (Some childIndex))
             typeMap (length cs)) [] cs [] C"
    by (rule forEachChild_eachSibling [OF pre]) (simp add: countTruthy_def)
  then show ?thesis using Inr by (simp add: countTruthy_def split: sum.splits)
qed


lemma eachSibling_split:
  "eachSibling step pre0 (pre @ child # post) acc C =
     (case eachSibling step pre0 pre acc C of
        Inl e \<Rightarrow> Inl e
      | Inr (earlier, C1) \<Rightarrow>
          (case step (pre0 @ pre) child C1 of
             Inl e \<Rightarrow> Inl e
           | Inr (resolved, C2) \<Rightarrow>
               eachSibling step (pre0 @ pre @ [child]) post (earlier @ [resolved]) C2))"
proof (induction pre arbitrary: pre0 acc C)
  case Nil
  show ?case by (simp split: sum.splits)
next
  case (Cons c pre)
  show ?case by (simp add: Cons.IH [of "pre0 @ [c]"] split: sum.splits)
qed

text \<open>The array branch again, seen from the child that stands after the siblings
  \<open>pre\<close>: the siblings before it are resolved, then the child itself, by the recursive
  call of \<open>resolveLook\<close> with its metadata, then the siblings after it.\<close>

lemma resolveLook_truthy_child_at:
  assumes "generateTypeMap cs = Inr typeMap" and "cs = pre @ child # post" and "truthy child"
  shows "resolveLook E C (Elem t k r (Props lk cn st (Arr cs) h ot)) childIndexMap =
     (case eachSibling
             (resolveSibling (\<lambda>child childIndex D. resolveLook E D child (Some childIndex))
                typeMap (length cs))
             [] pre [] C of
        Inl e \<Rightarrow> Inl e
      | Inr (earlier, C1) \<Rightarrow>
          (case resolveLook E C1 child (Some (metadata typeMap (length cs) pre child)) of
             Inl e \<Rightarrow> Inl e
           | Inr (resolved, C2) \<Rightarrow>
               (case eachSibling
                       (resolveSibling
                          (\<lambda>child childIndex D. resolveLook E D child (Some childIndex))
                          typeMap (length cs))
                       (pre @ [child]) post (earlier @ [resolved]) C2 of
                  Inl e \<Rightarrow> Inl e
                | Inr (newChildren, C3) \<Rightarrow>
                    finishLook E C3 t k r (Props lk cn st (Arr cs) h ot) (Arr newChildren)
                      childIndexMap)))"
proof -
  have head: "\<And>D. resolveSibling (\<lambda>child childIndex D. resolveLook E D child (Some childIndex))
                  typeMap (length cs) pre child D
              = resolveLook E D child (Some (metadata typeMap (length cs) pre child))"
    using assms(3) by (simp add: resolveSibling_def)
  have "eachSibling
          (resolveSibling (\<lambda>child childIndex D. resolveLook E D child (Some childIndex))
             typeMap (length cs)) [] cs [] C
      = (case eachSibling
             (resolveSibling (\<lambda>child childIndex D. resolveLook E D child (Some childIndex))
                typeMap (length cs))
             [] pre [] C of
        Inl e \<Rightarrow> Inl e
      | Inr (earlier, C1) \<Rightarrow>
          (case resolveLook E C1 child (Some (metadata typeMap (length cs) pre child)) of
             Inl e \<Rightarrow> Inl e
           | Inr (resolved, C2) \<Rightarrow>
               eachSibling
                       (resolveSibling
                          (\<lambda>child childIndex D. resolveLook E D child (Some childIndex))
                          typeMap (length cs))
                       (pre @ [child]) post (earlier @ [resolved]) C2))"
    unfolding assms(2) eachSibling_split [of _ "[]" pre child post]
    using head [unfolded assms(2)] by (simp split: sum.splits)
  then show ?thesis
    by (simp only: resolveLook_children_array assms(1) sum.case) (simp split: sum.splits)
qed


lemma generateTypeMap_forEach_accepts:
  "generateTypeMap_forEach cs m = Inr m' \<Longrightarrow> c \<in> set cs \<Longrightarrow> \<not> nullishNode c"
proof (induction cs arbitrary: m)
  case Nil
  then show ?case by simp
next
  case (Cons x cs)
  from Cons.prems(1) obtain m1 where g: "generateIndexMap x m = Inr m1"
    and tl: "generateTypeMap_forEach cs m1 = Inr m'" by (auto split: sum.splits)
  from g have "\<not> nullishNode x" by (simp add: generateIndexMap_Inr)
  with Cons.IH [OF tl] Cons.prems(2) show ?case by auto
qed

text \<open>The same for any child: a falsy child is kept as it is, with no recursive call.\<close>

lemma resolveLook_child_at:
  assumes "generateTypeMap cs = Inr typeMap" and "cs = pre @ child # post"
  shows "resolveLook E C (Elem t k r (Props lk cn st (Arr cs) h ot)) childIndexMap =
     (case eachSibling
             (resolveSibling (\<lambda>child childIndex D. resolveLook E D child (Some childIndex))
                typeMap (length cs))
             [] pre [] C of
        Inl e \<Rightarrow> Inl e
      | Inr (earlier, C1) \<Rightarrow>
          (case (if truthy child
                 then resolveLook E C1 child (Some (metadata typeMap (length cs) pre child))
                 else Inr (child, C1)) of
             Inl e \<Rightarrow> Inl e
           | Inr (resolved, C2) \<Rightarrow>
               (case eachSibling
                       (resolveSibling
                          (\<lambda>child childIndex D. resolveLook E D child (Some childIndex))
                          typeMap (length cs))
                       (pre @ [child]) post (earlier @ [resolved]) C2 of
                  Inl e \<Rightarrow> Inl e
                | Inr (newChildren, C3) \<Rightarrow>
                    finishLook E C3 t k r (Props lk cn st (Arr cs) h ot) (Arr newChildren)
                      childIndexMap)))"
proof -
  from assms(1) have "generateTypeMap_forEach cs Map.empty = Inr typeMap"
    by (simp add: generateTypeMap_def)
  then have "\<not> nullishNode child"
    by (rule generateTypeMap_forEach_accepts) (simp add: assms(2))
  then have nu: "child \<noteq> P Undefined" by (auto simp: nullishNode_def)
  have head: "\<And>D. resolveSibling (\<lambda>child childIndex D. resolveLook E D child (Some childIndex))
                  typeMap (length cs) pre child D
              = (if truthy child
                 then resolveLook E D child (Some (metadata typeMap (length cs) pre child))
                 else Inr (child, D))"
    using nu by (simp add: resolveSibling_def)
  have "eachSibling
          (resolveSibling (\<lambda>child childIndex D. resolveLook E D child (Some childIndex))
             typeMap (length cs)) [] cs [] C
      = (case eachSibling
             (resolveSibling (\<lambda>child childIndex D. resolveLook E D child (Some childIndex))
                typeMap (length cs))
             [] pre [] C of
        Inl e \<Rightarrow> Inl e
      | Inr (earlier, C1) \<Rightarrow>
          (case (if truthy child
                 then resolveLook E C1 child (Some (metadata typeMap (length cs) pre child))
                 else Inr (child, C1)) of
             Inl e \<Rightarrow> Inl e
           | Inr (resolved, C2) \<Rightarrow>
               eachSibling
                       (resolveSibling
                          (\<lambda>child childIndex D. resolveLook E D child (Some childIndex))
                          typeMap (length cs))
                       (pre @ [child]) post (earlier @ [resolved]) C2))"
    unfolding assms(2) eachSibling_split [of _ "[]" pre child post]
    using head [unfolded assms(2)] by (simp split: sum.splits)
  then show ?thesis
    by (simp only: resolveLook_children_array assms(1) sum.case) (simp split: sum.splits)
qed


lemma bump_hasOwnProperty:
  "m ''hasOwnProperty'' = None \<Longrightarrow>
   (bump key m ''hasOwnProperty'' = None) = (key \<noteq> ''hasOwnProperty'')"
  by (auto simp: bump_def)

lemma generateTypeMap_forEach_accepts_iff:
  "(\<exists>m'. generateTypeMap_forEach cs m = Inr m') =
     (list_all (\<lambda>c. \<not> nullishNode c) cs
      \<and> (cs = [] \<or> (m ''hasOwnProperty'' = None
            \<and> list_all (\<lambda>c. kindOf c \<noteq> ''hasOwnProperty'') (butlast cs))))"
proof (induction cs arbitrary: m)
  case Nil
  show ?case by simp
next
  case (Cons c cs)
  show ?case
  proof (cases "\<not> nullishNode c \<and> m ''hasOwnProperty'' = None")
    case True
    then have g: "generateIndexMap c m = Inr (bump (kindOf c) m)"
      by (simp add: generateIndexMap_Inr)
    show ?thesis
      using True by (simp add: g Cons.IH bump_hasOwnProperty)
  next
    case False
    then have "\<And>m1. generateIndexMap c m \<noteq> Inr m1" by (auto simp: generateIndexMap_Inr)
    then have "\<And>m'. generateTypeMap_forEach (c # cs) m \<noteq> Inr m'"
      by (auto split: sum.splits)
    with False show ?thesis by auto
  qed
qed

text \<open>The pre-pass accepts an array of children exactly when none of them is
  \<open>undefined\<close> or \<open>null\<close> and none but the last is of the kind \<open>hasOwnProperty\<close>.\<close>

lemma generateTypeMap_accepts_iff:
  "(\<exists>typeMap. generateTypeMap cs = Inr typeMap) =
     (list_all (\<lambda>c. \<not> nullishNode c) cs
      \<and> list_all (\<lambda>c. kindOf c \<noteq> ''hasOwnProperty'') (butlast cs))"
  by (cases "cs = []") (simp_all add: generateTypeMap_def generateTypeMap_forEach_accepts_iff)

text \<open>An evaluator that shows what it is given: it writes the metadata it receives into
  the outgoing props (a count as a number, an inherited value as the name of its key).\<close>

fun encode :: "mapval \<Rightarrow> prim" where
  "encode (Count n) = Num (int n)"
| "encode (Inherited key) = Str key"
| "encode Absent = Undefined"

fun set_others :: "(string \<times> prim) list \<Rightarrow> props \<Rightarrow> props" where
  "set_others ot (Props l cn st ch h r) = Props l cn st ch h ot"

definition seen :: "childIndex \<Rightarrow> (string \<times> prim) list" where
  "seen ci = [(''index'', Num (int (ci_index ci))), (''length'', Num (int (ci_length ci))),
              (''typeIndex'', encode (ci_typeIndex ci)),
              (''typeIndexLength'', encode (ci_typeIndexLength ci))]"

definition recordingEnv :: env where
  "recordingEnv =
     \<lparr>evaluateExpression = (\<lambda>element property newProps childIndexMap.
          (True, case childIndexMap of None \<Rightarrow> newProps | Some ci \<Rightarrow> set_others (seen ci) newProps)),
      isPseudoElement = (\<lambda>property. False),
      processors = None\<rparr>"

definition itemTable :: styleTable where
  "itemTable = [(''item'', Rule None [('':any'', Sub (Rule None [(''color'', Val (Str ''red''))]))])]"

definition item :: "string \<Rightarrow> node" where
  "item tag = Elem (Tag tag) Null Null (Props (Some (Str ''item'')) None None (P Undefined) [] [])"

definition parent :: "node list \<Rightarrow> node" where
  "parent cs = Elem (Tag ''ul'') Null Null (Props None None None (Arr cs) [] [])"

text \<open>The siblings \<open>[li, false, li, 0, p]\<close> and the siblings of the kinds
  \<open>[x, y, x, z]\<close>.\<close>

definition liSiblings :: "node list" where
  "liSiblings = [item ''li'', P (Bool False), item ''li'', P (Num 0), item ''p'']"

definition xyxz :: "node list" where
  "xyxz = [item ''x'', item ''y'', item ''x'', item ''z'']"

text \<open>
  C10. In an array of siblings that the pre-pass accepts, the child at the 0-based position
  \<open>length pre\<close> is, once the siblings before it are resolved and when it is truthy,
  resolved by the recursive call of \<open>resolveLook\<close> with the record
  \<open>metadata typeMap (length cs) pre child\<close>; the \<open>index\<close> of the record is the position
  plus one and its \<open>length\<close> the number of all siblings. A falsy child is kept as it is,
  with no recursive call.
\<close>

theorem resolveLook_passes_index_and_length:
  assumes "generateTypeMap cs = Inr typeMap" and "cs = pre @ child # post"
  shows "resolveLook E C (Elem t k r (Props lk cn st (Arr cs) h ot)) childIndexMap =
     (case eachSibling
             (resolveSibling (\<lambda>child childIndex D. resolveLook E D child (Some childIndex))
                typeMap (length cs))
             [] pre [] C of
        Inl e \<Rightarrow> Inl e
      | Inr (earlier, C1) \<Rightarrow>
          (case (if truthy child
                 then resolveLook E C1 child (Some (metadata typeMap (length cs) pre child))
                 else Inr (child, C1)) of
             Inl e \<Rightarrow> Inl e
           | Inr (resolved, C2) \<Rightarrow>
               (case eachSibling
                       (resolveSibling
                          (\<lambda>child childIndex D. resolveLook E D child (Some childIndex))
                          typeMap (length cs))
                       (pre @ [child]) post (earlier @ [resolved]) C2 of
                  Inl e \<Rightarrow> Inl e
                | Inr (newChildren, C3) \<Rightarrow>
                    finishLook E C3 t k r (Props lk cn st (Arr cs) h ot) (Arr newChildren)
                      childIndexMap)))
   \<and> ci_index (metadata typeMap (length cs) pre child) = length pre + 1
   \<and> ci_length (metadata typeMap (length cs) pre child) = length cs"
  using resolveLook_child_at [OF assms] by (simp add: metadata_def)

theorem resolveLook_passes_index_and_length_witness:
  "\<exists>typeMap. generateTypeMap liSiblings = Inr typeMap
      \<and> liSiblings = [item ''li'', P (Bool False), item ''li'', P (Num 0)] @ item ''p'' # []
      \<and> truthy (item ''p'')
      \<and> ci_index (metadata typeMap (length liSiblings)
                     [item ''li'', P (Bool False), item ''li'', P (Num 0)] (item ''p'')) = 5
      \<and> ci_length (metadata typeMap (length liSiblings)
                      [item ''li'', P (Bool False), item ''li'', P (Num 0)] (item ''p'')) = 5"
proof -
  obtain tm where tm: "generateTypeMap liSiblings = Inr tm"
    by (simp add: liSiblings_def item_def generateTypeMap_def generateIndexMap_def)
  have sp: "liSiblings = [item ''li'', P (Bool False), item ''li'', P (Num 0)] @ item ''p'' # []"
    by (simp add: liSiblings_def)
  have tr: "truthy (item ''p'')" by (simp add: item_def)
  from resolveLook_passes_index_and_length [OF tm sp]
  have "ci_index (metadata tm (length liSiblings)
                     [item ''li'', P (Bool False), item ''li'', P (Num 0)] (item ''p'')) = 5
      \<and> ci_length (metadata tm (length liSiblings)
                      [item ''li'', P (Bool False), item ''li'', P (Num 0)] (item ''p'')) = 5"
    by (simp add: liSiblings_def)
  with tm sp tr show ?thesis by (simp add: liSiblings_def)
qed

text \<open>The records as the evaluator sees them, for the children
  \<open>[li, false, li, 0, p]\<close>: positions 1, 3 and 5 of 5.\<close>

lemma resolveLook_records_metadata:
  "resolveLook recordingEnv itemTable
     (parent [item ''li'', P (Bool False), item ''li'', P (Num 0), item ''p'']) None
   = Inr (Elem (Tag ''ul'') Null Null
            (Props None None (Some [])
               (Arr [Elem (Tag ''li'') Null Null
                       (Props (Some (Str ''item'')) None (Some [(''color'', P (Str ''red''))])
                          (Arr []) []
                          [(''index'', Num 1), (''length'', Num 5),
                           (''typeIndex'', Num 1), (''typeIndexLength'', Num 2)]),
                     P (Bool False),
                     Elem (Tag ''li'') Null Null
                       (Props (Some (Str ''item'')) None (Some [(''color'', P (Str ''red''))])
                          (Arr []) []
                          [(''index'', Num 3), (''length'', Num 5),
                           (''typeIndex'', Num 2), (''typeIndexLength'', Num 2)]),
                     P (Num 0),
                     Elem (Tag ''p'') Null Null
                       (Props (Some (Str ''item'')) None (Some [(''color'', P (Str ''red''))])
                          (Arr []) []
                          [(''index'', Num 5), (''length'', Num 5),
                           (''typeIndex'', Num 1), (''typeIndexLength'', Num 1)])])
               [] []),
          itemTable)"
  by code_simp

lemma length_filter_both:
  "(length (filter (\<lambda>c. Q c \<and> R c) xs) = length (filter R xs)) = (\<forall>c\<in>set xs. R c \<longrightarrow> Q c)"
proof (induction xs)
  case Nil
  show ?case by simp
next
  case (Cons x xs)
  have "length (filter (\<lambda>c. Q c \<and> R c) xs) \<le> length (filter R xs)"
    by (induction xs) auto
  then have "length (filter (\<lambda>c. Q c \<and> R c) xs) \<noteq> Suc (length (filter R xs))" by simp
  with Cons.IH show ?case by auto
qed

lemma fold_bump_truthy:
  "key \<noteq> ''__proto__'' \<Longrightarrow>
   fold (\<lambda>c m. if truthy c then bump (kindOf c) m else m) xs m key
     = (if filter (\<lambda>c. truthy c \<and> kindOf c = key) xs = [] then m key
        else Some ((case m key of None \<Rightarrow> 0 | Some j \<Rightarrow> j)
                     + length (filter (\<lambda>c. truthy c \<and> kindOf c = key) xs)))"
  by (induction xs arbitrary: m) (auto simp: bump_def split: option.splits)

lemma generateTypeMap_forEach_counts:
  "generateTypeMap_forEach cs m = Inr m' \<Longrightarrow> key \<noteq> ''__proto__'' \<Longrightarrow>
   m' key = (if filter (\<lambda>c. kindOf c = key) cs = [] then m key
             else Some ((case m key of None \<Rightarrow> 0 | Some j \<Rightarrow> j)
                          + length (filter (\<lambda>c. kindOf c = key) cs)))"
proof (induction cs arbitrary: m)
  case Nil
  then show ?case by simp
next
  case (Cons c cs)
  from Cons.prems(1) obtain m1 where g: "generateIndexMap c m = Inr m1"
    and rest: "generateTypeMap_forEach cs m1 = Inr m'" by (auto split: sum.splits)
  from g have m1: "m1 = bump (kindOf c) m" by (simp add: generateIndexMap_Inr)
  show ?case
    using Cons.IH [OF rest Cons.prems(2)] Cons.prems(2)
    by (auto simp: m1 bump_def split: option.splits)
qed

text \<open>
  C2, as stated, fails. For the siblings \<open>[0, <undefined/>]\<close> the element is the last
  sibling, so the running count and the total of its kind must agree; the evaluator sees
  \<open>typeIndex = 1\<close> and \<open>typeIndexLength = 2\<close>, because the pre-pass counts the falsy
  \<open>0\<close> under the key \<open>undefined\<close> and the loop skips it (\<open>if (child)\<close>). The loop
  computes the same record for the text in \<open>[0, 'a']\<close>. For a child of the kind
  \<open>__proto__\<close> no count is stored, and the evaluator sees no numbers at all. After a
  child of the kind \<open>hasOwnProperty\<close> the pre-pass raises, and no metadata is computed.
\<close>

theorem typeIndex_falsy_sibling_counterexample:
  "resolveLook recordingEnv itemTable (parent [P (Num 0), item ''undefined'']) None
     = Inr (Elem (Tag ''ul'') Null Null
              (Props None None (Some [])
                 (Arr [P (Num 0),
                       Elem (Tag ''undefined'') Null Null
                         (Props (Some (Str ''item'')) None (Some [(''color'', P (Str ''red''))])
                            (Arr []) []
                            [(''index'', Num 2), (''length'', Num 2),
                             (''typeIndex'', Num 1), (''typeIndexLength'', Num 2)])])
                 [] []),
            itemTable)
   \<and> (case generateTypeMap [P (Num 0), P (Str ''a'')] of
         Inl e \<Rightarrow> False
       | Inr typeMap \<Rightarrow>
           forEachChild (\<lambda>child childIndex calls. Inr (child, calls @ [childIndex]))
             typeMap 2 [P (Num 0), P (Str ''a'')] 0 Map.empty [] []
           = Inr ([P (Num 0), P (Str ''a'')],
                  [\<lparr>ci_index = 2, ci_length = 2, ci_typeIndex = Count 1,
                    ci_typeIndexLength = Count 2\<rparr>]))
   \<and> resolveLook recordingEnv itemTable (parent [item ''__proto__'']) None
     = Inr (Elem (Tag ''ul'') Null Null
              (Props None None (Some [])
                 (Arr [Elem (Tag ''__proto__'') Null Null
                         (Props (Some (Str ''item'')) None (Some [(''color'', P (Str ''red''))])
                            (Arr []) []
                            [(''index'', Num 1), (''length'', Num 1),
                             (''typeIndex'', Str ''__proto__''),
                             (''typeIndexLength'', Str ''__proto__'')])])
                 [] []),
            itemTable)
   \<and> resolveLook recordingEnv itemTable (parent [item ''hasOwnProperty'', item ''p'']) None
     = Inl TypeError"
proof (intro conjI)
  show "resolveLook recordingEnv itemTable (parent [P (Num 0), item ''undefined'']) None
     = Inr (Elem (Tag ''ul'') Null Null
              (Props None None (Some [])
                 (Arr [P (Num 0),
                       Elem (Tag ''undefined'') Null Null
                         (Props (Some (Str ''item'')) None (Some [(''color'', P (Str ''red''))])
                            (Arr []) []
                            [(''index'', Num 2), (''length'', Num 2),
                             (''typeIndex'', Num 1), (''typeIndexLength'', Num 2)])])
                 [] []),
            itemTable)"
    by code_simp
  show "case generateTypeMap [P (Num 0), P (Str ''a'')] of
         Inl e \<Rightarrow> False
       | Inr typeMap \<Rightarrow>
           forEachChild (\<lambda>child childIndex calls. Inr (child, calls @ [childIndex]))
             typeMap 2 [P (Num 0), P (Str ''a'')] 0 Map.empty [] []
           = Inr ([P (Num 0), P (Str ''a'')],
                  [\<lparr>ci_index = 2, ci_length = 2, ci_typeIndex = Count 1,
                    ci_typeIndexLength = Count 2\<rparr>])"
    by (simp add: generateTypeMap_def generateIndexMap_def readMap_def)
  show "resolveLook recordingEnv itemTable (parent [item ''__proto__'']) None
     = Inr (Elem (Tag ''ul'') Null Null
              (Props None None (Some [])
                 (Arr [Elem (Tag ''__proto__'') Null Null
                         (Props (Some (Str ''item'')) None (Some [(''color'', P (Str ''red''))])
                            (Arr []) []
                            [(''index'', Num 1), (''length'', Num 1),
                             (''typeIndex'', Str ''__proto__''),
                             (''typeIndexLength'', Str ''__proto__'')])])
                 [] []),
            itemTable)"
    by code_simp
  show "resolveLook recordingEnv itemTable (parent [item ''hasOwnProperty'', item ''p'']) None
     = Inl TypeError"
    by code_simp
qed

text \<open>
  C2 (amended). Let the pre-pass accept the siblings \<open>cs\<close> and return \<open>typeMap\<close>, and let
  \<open>child\<close> be a truthy sibling, after the siblings \<open>pre\<close>, whose kind is not
  \<open>__proto__\<close>. Then the recursive call of \<open>resolveLook\<close> resolves the child with the
  record \<open>metadata typeMap (length cs) pre child\<close>; its \<open>typeIndex\<close> is the number of
  truthy siblings of the child's kind up to and including the child, and its
  \<open>typeIndexLength\<close> the number of all siblings of that kind. So \<open>typeIndex\<close> is the
  number of siblings of the kind at positions \<open>0..i\<close>, as the claim has it, exactly when
  no falsy sibling before the child is of its kind. Two values are of the same kind when \<open>getChildType\<close>
  gives the same key for both.
\<close>

theorem resolveLook_typeIndex_counts:
  assumes "generateTypeMap cs = Inr typeMap" and "cs = pre @ child # post"
      and "truthy child" and "getChildType child \<noteq> Inr ''__proto__''"
  shows "resolveLook E C (Elem t k r (Props lk cn st (Arr cs) h ot)) childIndexMap =
     (case eachSibling
             (resolveSibling (\<lambda>child childIndex D. resolveLook E D child (Some childIndex))
                typeMap (length cs))
             [] pre [] C of
        Inl e \<Rightarrow> Inl e
      | Inr (earlier, C1) \<Rightarrow>
          (case resolveLook E C1 child (Some (metadata typeMap (length cs) pre child)) of
             Inl e \<Rightarrow> Inl e
           | Inr (resolved, C2) \<Rightarrow>
               (case eachSibling
                       (resolveSibling
                          (\<lambda>child childIndex D. resolveLook E D child (Some childIndex))
                          typeMap (length cs))
                       (pre @ [child]) post (earlier @ [resolved]) C2 of
                  Inl e \<Rightarrow> Inl e
                | Inr (newChildren, C3) \<Rightarrow>
                    finishLook E C3 t k r (Props lk cn st (Arr cs) h ot) (Arr newChildren)
                      childIndexMap)))
       \<and> ci_typeIndex (metadata typeMap (length cs) pre child)
           = Count (length (filter (\<lambda>c. truthy c \<and> getChildType c = getChildType child)
                              (pre @ [child])))
       \<and> ci_typeIndexLength (metadata typeMap (length cs) pre child)
           = Count (length (filter (\<lambda>c. getChildType c = getChildType child) cs))
       \<and> (ci_typeIndex (metadata typeMap (length cs) pre child)
              = Count (length (filter (\<lambda>c. getChildType c = getChildType child) (pre @ [child]))))
           = (\<forall>c\<in>set pre. getChildType c = getChildType child \<longrightarrow> truthy c)"
proof -
  from assms(1) have pp: "generateTypeMap_forEach cs Map.empty = Inr typeMap"
    by (simp add: generateTypeMap_def)
  have nn: "\<not> nullishNode c" if "c \<in> set cs" for c
    using pp that by (rule generateTypeMap_forEach_accepts)
  have ch: "child \<in> set cs" using assms(2) by simp
  have key: "kindOf child \<noteq> ''__proto__''"
    using assms(4) getChildType_kindOf [OF nn [OF ch]] by simp
  have same: "(getChildType c = getChildType child) = (kindOf c = kindOf child)"
    if "c \<in> set cs" for c
    using getChildType_kindOf [OF nn [OF that]] getChildType_kindOf [OF nn [OF ch]] by simp
  have run: "filter (\<lambda>c. truthy c \<and> kindOf c = kindOf child) (pre @ [child])
           = filter (\<lambda>c. truthy c \<and> getChildType c = getChildType child) (pre @ [child])"
    by (rule filter_cong [OF refl]) (use same assms(2) in auto)
  have total: "filter (\<lambda>c. kindOf c = kindOf child) cs
             = filter (\<lambda>c. getChildType c = getChildType child) cs"
    by (rule filter_cong [OF refl]) (use same in auto)
  have "child \<in> set (filter (\<lambda>c. truthy c \<and> kindOf c = kindOf child) (pre @ [child]))"
    using assms(3) by simp
  then have run_pos: "filter (\<lambda>c. truthy c \<and> kindOf c = kindOf child) (pre @ [child]) \<noteq> []"
    by (metis empty_iff list.set(1))
  have "child \<in> set (filter (\<lambda>c. kindOf c = kindOf child) cs)" using ch by simp
  then have total_pos: "filter (\<lambda>c. kindOf c = kindOf child) cs \<noteq> []"
    by (metis empty_iff list.set(1))
  have ti: "ci_typeIndex (metadata typeMap (length cs) pre child)
           = Count (length (filter (\<lambda>c. truthy c \<and> getChildType c = getChildType child)
                              (pre @ [child])))"
    using fold_bump_truthy [OF key, of "pre @ [child]" Map.empty] run_pos
    by (simp add: metadata_def countTruthy_def readMap_def run del: fold_append filter_append)
  have tl: "ci_typeIndexLength (metadata typeMap (length cs) pre child)
           = Count (length (filter (\<lambda>c. getChildType c = getChildType child) cs))"
    using generateTypeMap_forEach_counts [OF pp key] total_pos
    by (simp add: metadata_def readMap_def total)
  have plain: "(length (filter (\<lambda>c. truthy c \<and> getChildType c = getChildType child)
                           (pre @ [child]))
                = length (filter (\<lambda>c. getChildType c = getChildType child) (pre @ [child])))
             = (\<forall>c\<in>set pre. getChildType c = getChildType child \<longrightarrow> truthy c)"
    using assms(3) by (simp add: length_filter_both)
  note eq = resolveLook_truthy_child_at [OF assms(1-3), of E C t k r lk cn st h ot childIndexMap]
  show ?thesis
  proof (intro conjI)
    show "(ci_typeIndex (metadata typeMap (length cs) pre child)
             = Count (length (filter (\<lambda>c. getChildType c = getChildType child) (pre @ [child]))))
        = (\<forall>c\<in>set pre. getChildType c = getChildType child \<longrightarrow> truthy c)"
      by (simp only: ti mapval.inject plain)
  qed (rule eq ti tl)+
qed

theorem resolveLook_typeIndex_counts_witness:
  "(\<exists>typeMap. generateTypeMap liSiblings = Inr typeMap
      \<and> ci_typeIndex (metadata typeMap (length liSiblings) [item ''li'', P (Bool False)] (item ''li''))
          = Count 2
      \<and> ci_typeIndexLength
          (metadata typeMap (length liSiblings) [item ''li'', P (Bool False)] (item ''li''))
          = Count 2)
   \<and> (\<exists>typeMap. generateTypeMap xyxz = Inr typeMap
      \<and> ci_typeIndex (metadata typeMap (length xyxz) [item ''x'', item ''y''] (item ''x''))
          = Count 2
      \<and> ci_typeIndexLength (metadata typeMap (length xyxz) [item ''x'', item ''y''] (item ''x''))
          = Count 2)"
proof
  obtain tm where tm: "generateTypeMap liSiblings = Inr tm"
    by (simp add: liSiblings_def item_def generateTypeMap_def generateIndexMap_def)
  have sp: "liSiblings = [item ''li'', P (Bool False)] @ item ''li'' # [P (Num 0), item ''p'']"
    by (simp add: liSiblings_def)
  have tr: "truthy (item ''li'')" by (simp add: item_def)
  have np: "getChildType (item ''li'') \<noteq> Inr ''__proto__''" by (simp add: item_def)
  from resolveLook_typeIndex_counts [OF tm sp tr np]
  have "ci_typeIndex (metadata tm (length liSiblings) [item ''li'', P (Bool False)] (item ''li''))
          = Count 2
      \<and> ci_typeIndexLength
          (metadata tm (length liSiblings) [item ''li'', P (Bool False)] (item ''li''))
          = Count 2"
    by (simp add: liSiblings_def item_def)
  with tm show "\<exists>typeMap. generateTypeMap liSiblings = Inr typeMap
      \<and> ci_typeIndex (metadata typeMap (length liSiblings) [item ''li'', P (Bool False)] (item ''li''))
          = Count 2
      \<and> ci_typeIndexLength
          (metadata typeMap (length liSiblings) [item ''li'', P (Bool False)] (item ''li''))
          = Count 2" by blast
next
  obtain tm where tm: "generateTypeMap xyxz = Inr tm"
    by (simp add: xyxz_def item_def generateTypeMap_def generateIndexMap_def)
  have sp: "xyxz = [item ''x'', item ''y''] @ item ''x'' # [item ''z'']"
    by (simp add: xyxz_def)
  have tr: "truthy (item ''x'')" by (simp add: item_def)
  have np: "getChildType (item ''x'') \<noteq> Inr ''__proto__''" by (simp add: item_def)
  from resolveLook_typeIndex_counts [OF tm sp tr np]
  have "ci_typeIndex (metadata tm (length xyxz) [item ''x'', item ''y''] (item ''x'')) = Count 2
      \<and> ci_typeIndexLength (metadata tm (length xyxz) [item ''x'', item ''y''] (item ''x''))
          = Count 2"
    by (simp add: xyxz_def item_def)
  with tm show "\<exists>typeMap. generateTypeMap xyxz = Inr typeMap
      \<and> ci_typeIndex (metadata typeMap (length xyxz) [item ''x'', item ''y''] (item ''x''))
          = Count 2
      \<and> ci_typeIndexLength (metadata typeMap (length xyxz) [item ''x'', item ''y''] (item ''x''))
          = Count 2" by blast
qed

section \<open>Resolution of a whole element\<close>

text \<open>An environment for the examples: every condition holds, a property is a
  pseudo-element when it names \<open>before\<close> or \<open>after\<close>, and there are no processors.\<close>

definition alwaysEnv :: env where
  "alwaysEnv = \<lparr>evaluateExpression = (\<lambda>element property newProps childIndexMap. (True, newProps)),
                 isPseudoElement = (\<lambda>property. indexOf property ''before'' \<or> indexOf property ''after''),
                 processors = None\<rparr>"

text \<open>A look \<open>box\<close> with a \<open>:before\<close> and an \<open>:after\<close> pseudo-element, and an element
  without children that carries it.\<close>

definition boxTable :: styleTable where
  "boxTable = [(''box'', Rule None
       [('':before'', Sub (Rule None [(''content'', Val (Str ''a''))])),
        ('':after'', Sub (Rule None [(''content'', Val (Str ''b''))]))])]"

definition boxElement :: node where
  "boxElement = Elem (Tag ''div'') Null Null (Props (Some (Str ''box'')) None None (P Undefined) [] [])"

text \<open>
  C8 (undefined children). An element whose children array holds \<open>undefined\<close> (or
  \<open>null\<close>) anywhere is not resolved: the pre-pass \<open>generateTypeMap\<close> reads
  \<open>child.type\<close> of every entry and raises a \<open>TypeError\<close> before the loop starts. The
  loop itself, reaching an \<open>undefined\<close> child, raises too: its warning reads the
  undeclared name \<open>oldChidren\<close>.
\<close>

theorem resolveLook_undefined_child_raises:
  "resolveLook E C (Elem t k r (Props lk cn st (Arr (xs @ P Undefined # ys)) h ot)) childIndexMap
     = Inl TypeError
   \<and> resolveLook E C (Elem t k r (Props lk cn st (Arr (xs @ P Null # ys)) h ot)) childIndexMap
     = Inl TypeError
   \<and> forEachChild resolve typeMap len (P Undefined # ys) index indexMap newChildren D
     = Inl ReferenceError"
  by (simp add: generateTypeMap_def generateTypeMap_forEach_nullish nullishNode_def)

text \<open>
  C5 (both pseudo-elements). When the look resolves a \<open>before\<close> and an \<open>after\<close> entry,
  only the \<open>before\<close> child is prepended: the \<open>after\<close> entry stays in the final style
  map and no child is appended (\<open>else if\<close>).
\<close>

theorem resolveLook_before_and_after_keeps_after:
  "resolveLook alwaysEnv boxTable boxElement None =
     Inr (Elem (Tag ''div'') Null Null
           (Props (Some (Str ''box'')) None
              (Some [(''after'', Elem (Tag ''span'') Null Null
                                   (Props None None (Some []) (P (Str ''b'')) [] []))])
              (Arr [Elem (Tag ''span'') Null Null (Props None None (Some []) (P (Str ''a'')) [] [])])
              [] []),
          boxTable)"
  by code_simp


section \<open>The explicit style prop\<close>

text \<open>The processors leave the property \<open>p\<close> of every style as it is.\<close>

definition processorsKeep :: "env \<Rightarrow> string \<Rightarrow> bool" where
  "processorsKeep E p =
     (case processors E of
        None \<Rightarrow> True
      | Some fs \<Rightarrow> \<forall>f\<in>set fs. \<forall>s. map_of (f s) p = map_of s p)"

text \<open>The earlier resolver of the same file (lines 88 to 91): \<open>if (props.style) newStyle =
  assign(newStyle, props.style); newProps.style = newStyle\<close>, where \<open>newProps\<close> is
  \<open>props\<close> itself.\<close>

definition attachedStyle :: "sty \<Rightarrow> props \<Rightarrow> props" where
  "attachedStyle newStyle ps =
     set_style (case style ps of None \<Rightarrow> newStyle | Some st \<Rightarrow> assign newStyle st) ps"

lemma map_of_assign: "map_of (assign target source) = map_of target ++ map_of (rev source)"
  unfolding assign_def
proof (induction source arbitrary: target)
  case Nil
  then show ?case by simp
next
  case (Cons kv source)
  obtain k v where kv: "kv = (k, v)" by (cases kv)
  show ?case by (simp add: kv Cons.IH update_conv' map_add_upd_left map_add_def fun_eq_iff split: option.splits)
qed

lemma map_of_assign_explicit:
  "distinct (map fst source) \<Longrightarrow> map_of source p = Some v \<Longrightarrow> map_of (assign target source) p = Some v"
proof -
  assume d: "distinct (map fst source)" and m: "map_of source p = Some v"
  from d have "distinct (map fst (rev source))" by (simp add: rev_map [symmetric])
  moreover from d m have "(p, v) \<in> set (rev source)" by (simp add: map_of_eq_Some_iff)
  ultimately have "map_of (rev source) p = Some v" by (simp only: map_of_eq_Some_iff)
  then show ?thesis by (simp add: map_of_assign)
qed

lemma sheetSelectors_keep:
  "processorsKeep E p \<Longrightarrow> map_of (sheetSelectors (processors E) s) p = map_of s p"
proof (cases "processors E")
  case None
  then show ?thesis by (simp add: sheetSelectors_def)
next
  case (Some fs)
  assume "processorsKeep E p"
  with Some have keep: "\<forall>f\<in>set fs. \<forall>s. map_of (f s) p = map_of s p"
    by (simp add: processorsKeep_def)
  then have "map_of (fold (\<lambda>f s. f s) fs s) p = map_of s p"
    by (induction fs arbitrary: s) simp_all
  with Some show ?thesis by (simp add: sheetSelectors_def)
qed

text \<open>Where the pseudo-element step leaves an entry \<open>p\<close> of the style map: a truthy
  \<open>before\<close> goes in front of the children, a truthy \<open>after\<close> goes behind them unless a
  truthy \<open>before\<close> is there as well, and every other entry stays.\<close>

lemma pseudoElements_entry:
  assumes "map_of stys p = Some v"
  shows "if truthy v \<and> p = ''before''
         then map_of (fst (pseudoElements stys newChildren)) p = None
              \<and> (\<exists>cs. snd (pseudoElements stys newChildren) = Arr (v # cs))
         else if truthy v \<and> p = ''after''
         then map_of (fst (pseudoElements stys newChildren)) p = Some v
              \<or> (map_of (fst (pseudoElements stys newChildren)) p = None
                  \<and> (\<exists>cs. snd (pseudoElements stys newChildren) = Arr (cs @ [v])))
         else map_of (fst (pseudoElements stys newChildren)) p = Some v"
  using assms by (auto simp: pseudoElements_def Let_def get_def delete_conv')

lemma pseudoElements_shield:
  assumes "map_of stys ''before'' = Some b" and "truthy b" and "map_of stys ''after'' = Some v"
  shows "map_of (fst (pseudoElements stys newChildren)) ''after'' = Some v"
  using assms by (simp add: pseudoElements_def Let_def get_def delete_conv')

lemma style_set_style: "style (set_children c (set_style s ps)) = Some s"
  by (cases ps) simp

lemma children_set_children: "children (set_children c ps) = c"
  by (cases ps) simp

lemma finishLook_explicit:
  assumes "finishLook E C t k r ps newChildren childIndexMap = Inr (out, C')"
      and "style ps = Some explicit" and "distinct (map fst explicit)" and "map_of explicit p = Some v"
      and "processorsKeep E p"
  shows "\<exists>ps' final. out = Elem t k r ps' \<and> style ps' = Some final
           \<and> (if truthy v \<and> p = ''before''
              then map_of final p = None \<and> (\<exists>cs. children ps' = Arr (v # cs))
              else if truthy v \<and> p = ''after''
              then map_of final p = Some v
                   \<or> (map_of final p = None \<and> (\<exists>cs. children ps' = Arr (cs @ [v])))
              else map_of final p = Some v)
           \<and> (p = ''after'' \<and> (\<exists>b. map_of explicit ''before'' = Some b \<and> truthy b)
                \<and> processorsKeep E ''before'' \<longrightarrow> map_of final p = Some v)"
proof -
  from assms(1,2) have "\<exists>newStyles newProps.
    out = cloneElement t k r
             (set_style (fst (pseudoElements (sheetSelectors (processors E) (assign newStyles explicit)) newChildren)) newProps)
             (snd (pseudoElements (sheetSelectors (processors E) (assign newStyles explicit)) newChildren))"
    by (auto simp: finishLook_def Let_def case_prod_beta split: sum.splits option.splits if_splits)
  then obtain newStyles newProps where
    out: "out = cloneElement t k r
             (set_style (fst (pseudoElements (sheetSelectors (processors E) (assign newStyles explicit)) newChildren)) newProps)
             (snd (pseudoElements (sheetSelectors (processors E) (assign newStyles explicit)) newChildren))"
    by blast
  define stys where "stys = sheetSelectors (processors E) (assign newStyles explicit)"
  have at_p: "map_of stys p = Some v"
    using assms(3-5) by (simp add: stys_def sheetSelectors_keep map_of_assign_explicit)
  have shield: "map_of (fst (pseudoElements stys newChildren)) p = Some v"
    if "p = ''after''" and "\<exists>b. map_of explicit ''before'' = Some b \<and> truthy b"
      and "processorsKeep E ''before''"
  proof -
    from that(2) obtain b where b: "map_of explicit ''before'' = Some b" "truthy b" by blast
    have "map_of stys ''before'' = Some b"
      using assms(3) b(1) that(3) by (simp add: stys_def sheetSelectors_keep map_of_assign_explicit)
    from pseudoElements_shield [OF this b(2)] at_p that(1) show ?thesis by simp
  qed
  let ?ps' = "set_children (snd (pseudoElements stys newChildren))
                (set_style (fst (pseudoElements stys newChildren)) newProps)"
  have "out = Elem t k r ?ps'" by (simp add: out cloneElement_def stys_def)
  moreover have "style ?ps' = Some (fst (pseudoElements stys newChildren))"
    by (rule style_set_style)
  moreover have "children ?ps' = snd (pseudoElements stys newChildren)"
    by (rule children_set_children)
  ultimately show ?thesis
    using pseudoElements_entry [OF at_p, of newChildren] shield
    by (intro exI [of _ ?ps'] exI [of _ "fst (pseudoElements stys newChildren)"])
       (simp only: simp_thms, blast)
qed

text \<open>
  C1, as stated, fails for the reserved properties \<open>before\<close> and \<open>after\<close>: the look and
  the explicit style prop both set the property, the explicit value \<open>'y'\<close> replaces the
  look's, and the pseudo-element step then moves it out of the style map into the children.
  The final style map has no such entry.
\<close>

theorem explicit_before_counterexample:
  "resolveLook alwaysEnv [(''box'', Rule None [(''before'', Val (Str ''x''))])]
     (Elem (Tag ''div'') Null Null
        (Props (Some (Str ''box'')) None (Some [(''before'', P (Str ''y''))]) (P Undefined) [] []))
     None
   = Inr (Elem (Tag ''div'') Null Null
            (Props (Some (Str ''box'')) None (Some []) (Arr [P (Str ''y'')]) [] []),
          [(''box'', Rule None [(''before'', Val (Str ''x''))])])
   \<and> resolveLook alwaysEnv [(''box'', Rule None [(''after'', Val (Str ''x''))])]
     (Elem (Tag ''div'') Null Null
        (Props (Some (Str ''box'')) None (Some [(''after'', P (Str ''y''))]) (P (Str ''hi'')) [] []))
     None
   = Inr (Elem (Tag ''div'') Null Null
            (Props (Some (Str ''box'')) None (Some []) (Arr [P (Str ''hi''), P (Str ''y'')]) [] []),
          [(''box'', Rule None [(''after'', Val (Str ''x''))])])"
  by code_simp

text \<open>
  C1 (amended). Let the resolution of an element complete, let its explicit style prop set
  the property \<open>p\<close> to \<open>v\<close>, and let the processors leave \<open>p\<close> alone. Then the final
  style map of the resolved element has \<open>v\<close> at \<open>p\<close>, whatever the style table, the look
  and the nesting of its conditions, unless \<open>p\<close> is one of the reserved \<open>before\<close> and
  \<open>after\<close> and \<open>v\<close> is truthy. A truthy explicit \<open>before\<close> is not in the final style
  map and is the first of the children. A truthy explicit \<open>after\<close> is either in the final
  style map or, taken out of it, the last of the children; it is in the final style map
  whenever the explicit style prop has a truthy \<open>before\<close> too that the processors leave
  alone. The earlier resolver attaches the explicit style last as well, for every property.
\<close>

theorem explicit_style_wins:
  assumes "resolveLook E C (Elem t k r ps) childIndexMap = Inr (out, C')"
      and "style ps = Some explicit" and "distinct (map fst explicit)" and "map_of explicit p = Some v"
      and "processorsKeep E p"
  shows "(\<exists>ps' final. out = Elem t k r ps' \<and> style ps' = Some final
           \<and> (if truthy v \<and> p = ''before''
              then map_of final p = None \<and> (\<exists>cs. children ps' = Arr (v # cs))
              else if truthy v \<and> p = ''after''
              then map_of final p = Some v
                   \<or> (map_of final p = None \<and> (\<exists>cs. children ps' = Arr (cs @ [v])))
              else map_of final p = Some v)
           \<and> (p = ''after'' \<and> (\<exists>b. map_of explicit ''before'' = Some b \<and> truthy b)
                \<and> processorsKeep E ''before'' \<longrightarrow> map_of final p = Some v))
       \<and> (\<exists>final. style (attachedStyle newStyle ps) = Some final \<and> map_of final p = Some v)"
proof
  from assms(1) obtain newChildren C1 where
    "finishLook E C1 t k r ps newChildren childIndexMap = Inr (out, C')"
    by (cases ps) (auto split: sum.splits if_splits)
  from finishLook_explicit [OF this assms(2-5)]
  show "\<exists>ps' final. out = Elem t k r ps' \<and> style ps' = Some final
           \<and> (if truthy v \<and> p = ''before''
              then map_of final p = None \<and> (\<exists>cs. children ps' = Arr (v # cs))
              else if truthy v \<and> p = ''after''
              then map_of final p = Some v
                   \<or> (map_of final p = None \<and> (\<exists>cs. children ps' = Arr (cs @ [v])))
              else map_of final p = Some v)
           \<and> (p = ''after'' \<and> (\<exists>b. map_of explicit ''before'' = Some b \<and> truthy b)
                \<and> processorsKeep E ''before'' \<longrightarrow> map_of final p = Some v)" .
next
  show "\<exists>final. style (attachedStyle newStyle ps) = Some final \<and> map_of final p = Some v"
    using assms(2-4) by (cases ps) (simp add: attachedStyle_def map_of_assign_explicit)
qed

text \<open>A look whose \<open>color\<close> is set at three nesting depths, and an element that carries
  the look and an explicit \<open>color\<close>.\<close>

definition nestedTable :: styleTable where
  "nestedTable = [(''box'', Rule (Some ''btn'')
       [(''color'', Val (Str ''red'')),
        ('':hover'', Sub (Rule None
           [(''color'', Val (Str ''green'')),
            ('':first-child'', Sub (Rule None [(''color'', Val (Str ''black''))]))]))])]"

definition styledElement :: node where
  "styledElement = Elem (Tag ''div'') Null Null
     (Props (Some (Str ''box'')) None (Some [(''color'', P (Str ''blue''))]) (P (Str ''hi'')) [] [])"

text \<open>A look that sets \<open>after\<close>, and an element that carries the look and an explicit
  \<open>before\<close> and \<open>after\<close>.\<close>

definition afterTable :: styleTable where
  "afterTable = [(''box'', Rule None [(''after'', Val (Str ''x''))])]"

definition shieldedElement :: node where
  "shieldedElement = Elem (Tag ''div'') Null Null
     (Props (Some (Str ''box'')) None
        (Some [(''before'', P (Str ''y'')), (''after'', P (Str ''z''))]) (P (Str ''hi'')) [] [])"

theorem explicit_style_wins_witness:
  "resolveLook alwaysEnv nestedTable styledElement None
     = Inr (Elem (Tag ''div'') Null Null
              (Props (Some (Str ''box'')) (Some ''btn'') (Some [(''color'', P (Str ''blue''))])
                 (P (Str ''hi'')) [] []),
            [(''box'', Rule None
               [(''color'', Val (Str ''red'')),
                ('':hover'', Sub (Rule None
                   [(''color'', Val (Str ''green'')),
                    ('':first-child'', Sub (Rule None [(''color'', Val (Str ''black''))]))]))])])
   \<and> processorsKeep alwaysEnv ''color''
   \<and> (\<exists>ps' final. Elem (Tag ''div'') Null Null
              (Props (Some (Str ''box'')) (Some ''btn'') (Some [(''color'', P (Str ''blue''))])
                 (P (Str ''hi'')) [] [])
             = Elem (Tag ''div'') Null Null ps'
           \<and> style ps' = Some final \<and> map_of final ''color'' = Some (P (Str ''blue'')))
   \<and> resolveLook alwaysEnv afterTable shieldedElement None
     = Inr (Elem (Tag ''div'') Null Null
              (Props (Some (Str ''box'')) None (Some [(''after'', P (Str ''z''))])
                 (Arr [P (Str ''y''), P (Str ''hi'')]) [] []),
            [(''box'', Rule None [(''after'', Val (Str ''x''))])])
   \<and> processorsKeep alwaysEnv ''after'' \<and> processorsKeep alwaysEnv ''before''
   \<and> (\<exists>ps' final. Elem (Tag ''div'') Null Null
              (Props (Some (Str ''box'')) None (Some [(''after'', P (Str ''z''))])
                 (Arr [P (Str ''y''), P (Str ''hi'')]) [] [])
             = Elem (Tag ''div'') Null Null ps'
           \<and> style ps' = Some final \<and> map_of final ''after'' = Some (P (Str ''z'')))"
proof -
  have run: "resolveLook alwaysEnv nestedTable
       (Elem (Tag ''div'') Null Null
          (Props (Some (Str ''box'')) None (Some [(''color'', P (Str ''blue''))]) (P (Str ''hi'')) [] []))
       None
     = Inr (Elem (Tag ''div'') Null Null
              (Props (Some (Str ''box'')) (Some ''btn'') (Some [(''color'', P (Str ''blue''))])
                 (P (Str ''hi'')) [] []),
            [(''box'', Rule None
               [(''color'', Val (Str ''red'')),
                ('':hover'', Sub (Rule None
                   [(''color'', Val (Str ''green'')),
                    ('':first-child'', Sub (Rule None [(''color'', Val (Str ''black''))]))]))])])"
    by code_simp
  have keep: "processorsKeep alwaysEnv p" for p by (simp add: processorsKeep_def alwaysEnv_def)
  have st: "style (Props (Some (Str ''box'')) None (Some [(''color'', P (Str ''blue''))]) (P (Str ''hi'')) [] [])
              = Some [(''color'', P (Str ''blue''))]" by simp
  have d: "distinct (map fst [(''color'', P (Str ''blue''))])" by simp
  have m: "map_of [(''color'', P (Str ''blue''))] ''color'' = Some (P (Str ''blue''))" by simp
  have first: "\<exists>ps' final. Elem (Tag ''div'') Null Null
              (Props (Some (Str ''box'')) (Some ''btn'') (Some [(''color'', P (Str ''blue''))])
                 (P (Str ''hi'')) [] [])
             = Elem (Tag ''div'') Null Null ps'
           \<and> style ps' = Some final \<and> map_of final ''color'' = Some (P (Str ''blue''))"
    using explicit_style_wins [OF run st d m keep, of "[(''color'', P (Str ''red''))]"]
    by simp
  have run2: "resolveLook alwaysEnv afterTable
       (Elem (Tag ''div'') Null Null
          (Props (Some (Str ''box'')) None
             (Some [(''before'', P (Str ''y'')), (''after'', P (Str ''z''))]) (P (Str ''hi'')) [] []))
       None
     = Inr (Elem (Tag ''div'') Null Null
              (Props (Some (Str ''box'')) None (Some [(''after'', P (Str ''z''))])
                 (Arr [P (Str ''y''), P (Str ''hi'')]) [] []),
            [(''box'', Rule None [(''after'', Val (Str ''x''))])])"
    by code_simp
  have st2: "style (Props (Some (Str ''box'')) None
             (Some [(''before'', P (Str ''y'')), (''after'', P (Str ''z''))]) (P (Str ''hi'')) [] [])
              = Some [(''before'', P (Str ''y'')), (''after'', P (Str ''z''))]" by simp
  have d2: "distinct (map fst [(''before'', P (Str ''y'')), (''after'', P (Str ''z''))])" by simp
  have m2: "map_of [(''before'', P (Str ''y'')), (''after'', P (Str ''z''))] ''after''
              = Some (P (Str ''z''))" by simp
  have second: "\<exists>ps' final. Elem (Tag ''div'') Null Null
              (Props (Some (Str ''box'')) None (Some [(''after'', P (Str ''z''))])
                 (Arr [P (Str ''y''), P (Str ''hi'')]) [] [])
             = Elem (Tag ''div'') Null Null ps'
           \<and> style ps' = Some final \<and> map_of final ''after'' = Some (P (Str ''z''))"
    using explicit_style_wins [OF run2 st2 d2 m2 keep, of "[]"] keep [of "''before''"]
    by simp
  from run run2 keep first second show ?thesis
    by (simp only: styledElement_def shieldedElement_def simp_thms)
qed

end
